theory Spec2Isabelle
  imports Main "HOL-Library.List_Lexorder"
begin

section \<open>Python values\<close>

text \<open>
  A Python \<^verbatim>\<open>str\<close> is a sequence of Unicode code points, so it is modelled as a list of
  natural numbers (the keyword tables of the language detector hold code points far above
  255). \<open>ustr\<close> writes an ASCII literal of the source as such a list.
\<close>

type_synonym pystr = "nat list"

definition ustr :: "string \<Rightarrow> pystr" where
  "ustr s = map of_char s"

text \<open>The exceptions the modelled code can raise.\<close>

datatype error =
    AttributeError
  | TypeError
  | KeyError
  | IndexError
  | ValueError
  | JSONDecodeError
  | LangDetectException
  | UnicodeEncodeError
  | OtherError

text \<open>\<^verbatim>\<open>t.startswith(w)\<close> and the substring test \<^verbatim>\<open>w in t\<close> of \<^verbatim>\<open>str\<close>.\<close>

fun startswith :: "'a list \<Rightarrow> 'a list \<Rightarrow> bool" where
  "startswith t [] = True"
| "startswith [] (w # ws) = False"
| "startswith (c # cs) (w # ws) = (c = w \<and> startswith cs ws)"

fun str_in :: "'a list \<Rightarrow> 'a list \<Rightarrow> bool" where
  "str_in w [] = (w = [])"
| "str_in w (c # cs) = (startswith (c # cs) w \<or> str_in w cs)"

text \<open>
  \<^verbatim>\<open>str.strip()\<close> removes leading and trailing white space; \<open>isspace\<close> lists the code
  points Python counts as white space.
\<close>

definition isspace :: "nat \<Rightarrow> bool" where
  "isspace c = ((0x09 \<le> c \<and> c \<le> 0x0D) \<or> (0x1C \<le> c \<and> c \<le> 0x20) \<or> c = 0x85 \<or> c = 0xA0
     \<or> c = 0x1680 \<or> (0x2000 \<le> c \<and> c \<le> 0x200A) \<or> c = 0x2028 \<or> c = 0x2029
     \<or> c = 0x202F \<or> c = 0x205F \<or> c = 0x3000)"

definition strip :: "pystr \<Rightarrow> pystr" where
  "strip t = rev (dropWhile isspace (rev (dropWhile isspace t)))"

section \<open>The language detector (src/main/lang\_indicators.py)\<close>

subsection \<open>The tables of \<open>SmartLanguageDetector.__init__\<close>\<close>

text \<open>
  A Python dict keeps its keys in insertion order, and the detector iterates over its
  tables, so each table is an association list in the order of the source. The keys of
  every table are distinct. Keywords are given by their code points.
\<close>

definition hi :: pystr where "hi = ustr ''hi''"
definition mr :: pystr where "mr = ustr ''mr''"
definition gu :: pystr where "gu = ustr ''gu''"
definition sa :: pystr where "sa = ustr ''sa''"
definition ne :: pystr where "ne = ustr ''ne''"

definition devanagari_langs :: "pystr list" where
  "devanagari_langs = [hi, mr, gu, sa, ne]"

definition hi_indicators :: "(pystr \<times> int) list" where
  "hi_indicators =
    [([0x939, 0x948], 3), ([0x939, 0x948, 0x902], 3), ([0x939, 0x94B], 2),
     ([0x915, 0x94D, 0x92F, 0x93E], 2), ([0x92F, 0x939], 2), ([0x935, 0x939], 2),
     ([0x92E, 0x948, 0x902], 2), ([0x924, 0x941, 0x92E], 2), ([0x915, 0x94B], 1),
     ([0x938, 0x947], 1), ([0x928, 0x947], 1), ([0x92A, 0x930], 1),
     ([0x92E, 0x947, 0x902], 1), ([0x915, 0x93E], 1), ([0x915, 0x940], 1),
     ([0x915, 0x947], 1)]"

definition mr_indicators :: "(pystr \<times> int) list" where
  "mr_indicators =
    [([0x906, 0x939, 0x947], 3), ([0x906, 0x939, 0x94B, 0x924], 3), ([0x915, 0x93E, 0x92F], 2),
     ([0x939, 0x93E], 2), ([0x924, 0x940], 2), ([0x92E, 0x940], 2), ([0x924, 0x942], 2),
     ([0x906, 0x92E, 0x94D, 0x939, 0x940], 2),
     ([0x924, 0x941, 0x92E, 0x94D, 0x939, 0x940], 2), ([0x932, 0x93E], 1),
     ([0x928, 0x947], 1), ([0x91A], 1), ([0x92A, 0x923], 1), ([0x906, 0x923, 0x93F], 1)]"

definition gu_indicators :: "(pystr \<times> int) list" where
  "gu_indicators =
    [([0xA9B, 0xAC7], 3), ([0xAA5, 0xABE, 0xAAF], 3), ([0xAB6, 0xAC1, 0xA82], 2),
     ([0xA86], 2), ([0xAA4, 0xAC7], 2), ([0xAB9, 0xAC1, 0xA82], 2),
     ([0xAA4, 0xAAE, 0xAC7], 2), ([0xAA8, 0xAC7], 1), ([0xAA5, 0xAC0], 1),
     ([0xA85, 0xAA8, 0xAC7], 1), ([0xAAA, 0xAA3], 1)]"

definition sa_indicators :: "(pystr \<times> int) list" where
  "sa_indicators =
    [([0x905, 0x938, 0x94D, 0x924, 0x93F], 3), ([0x92D, 0x935, 0x924, 0x93F], 3),
     ([0x915, 0x93F, 0x92E, 0x94D], 2), ([0x905, 0x939, 0x92E, 0x94D], 2),
     ([0x924, 0x94D, 0x935, 0x92E, 0x94D], 2), ([0x938, 0x903], 2),
     ([0x924, 0x924, 0x94D], 2), ([0x91A], 1), ([0x935, 0x93E], 1)]"

definition ne_indicators :: "(pystr \<times> int) list" where
  "ne_indicators =
    [([0x91B], 3), ([0x939, 0x94B], 2), ([0x915, 0x947], 2), ([0x92F, 0x94B], 2),
     ([0x924, 0x94D, 0x92F, 0x94B], 2), ([0x92E], 2), ([0x924, 0x93F, 0x92E, 0x940], 2),
     ([0x939, 0x93E, 0x92E, 0x940], 2), ([0x932, 0x93E, 0x908], 1),
     ([0x92C, 0x93E, 0x91F], 1), ([0x930], 1)]"

definition devanagari_indicators :: "(pystr \<times> (pystr \<times> int) list) list" where
  "devanagari_indicators =
    [(hi, hi_indicators), (mr, mr_indicators), (gu, gu_indicators),
     (sa, sa_indicators), (ne, ne_indicators)]"

definition hin_Deva :: pystr where "hin_Deva = ustr ''hin_Deva''"

definition lang_code_map :: "(pystr \<times> pystr) list" where
  "lang_code_map =
    [(hi, hin_Deva), (mr, ustr ''mar_Deva''), (ustr ''bn'', ustr ''ben_Beng''),
     (ustr ''ta'', ustr ''tam_Taml''), (ustr ''te'', ustr ''tel_Telu''),
     (gu, ustr ''guj_Gujr''), (ustr ''kn'', ustr ''kan_Knda''),
     (ustr ''ml'', ustr ''mal_Mlym''), (ustr ''pa'', ustr ''pan_Guru''),
     (ustr ''or'', ustr ''ory_Orya''), (ustr ''as'', ustr ''asm_Beng''),
     (ustr ''ur'', ustr ''urd_Arab''), (ustr ''en'', ustr ''eng_Latn''),
     (ne, ustr ''nep_Deva''), (ustr ''si'', ustr ''sin_Sinh''), (sa, ustr ''san_Deva'')]"

text \<open>A dict subscript \<^verbatim>\<open>d[k]\<close> raises \<^verbatim>\<open>KeyError\<close> on a missing key.\<close>

definition subscript :: "('k \<times> 'v) list \<Rightarrow> 'k \<Rightarrow> error + 'v" where
  "subscript d k = (case map_of d k of None \<Rightarrow> Inl KeyError | Some v \<Rightarrow> Inr v)"

subsection \<open>\<open>is_devanagari_script\<close>\<close>

definition is_devanagari_script :: "pystr \<Rightarrow> bool" where
  "is_devanagari_script text = list_ex (\<lambda>c. 0x900 \<le> c \<and> c \<le> 0x97F) text"

subsection \<open>\<open>detect_devanagari_language\<close>\<close>

text \<open>
  The inner loop adds a keyword's weight when the keyword occurs in the text; the outer
  loop stores a language's score when it is positive.
\<close>

fun keyword_score :: "pystr \<Rightarrow> (pystr \<times> int) list \<Rightarrow> int \<Rightarrow> int" where
  "keyword_score text [] score = score"
| "keyword_score text ((word, weight) # rest) score =
     keyword_score text rest (if str_in word text then score + weight else score)"

fun score_langs :: "pystr \<Rightarrow> (pystr \<times> (pystr \<times> int) list) list \<Rightarrow> (pystr \<times> int) list" where
  "score_langs text [] = []"
| "score_langs text ((lang, indicators) # rest) =
     (let score = keyword_score text indicators 0
      in if score > 0 then (lang, score) # score_langs text rest else score_langs text rest)"

definition lang_scores :: "pystr \<Rightarrow> (pystr \<times> int) list" where
  "lang_scores text = score_langs text devanagari_indicators"

text \<open>
  \<^verbatim>\<open>max(items, key=lambda x: x[1])\<close> keeps the first item whose key is maximal: a later
  item replaces the best one only when its key is strictly greater. On an empty sequence
  it raises \<^verbatim>\<open>ValueError\<close>.
\<close>

fun max_loop :: "('k \<times> int) list \<Rightarrow> ('k \<times> int) \<Rightarrow> ('k \<times> int)" where
  "max_loop [] best = best"
| "max_loop (x # xs) best = max_loop xs (if snd x > snd best then x else best)"

fun max_by_value :: "('k \<times> int) list \<Rightarrow> error + ('k \<times> int)" where
  "max_by_value [] = Inl ValueError"
| "max_by_value (x # xs) = Inr (max_loop xs x)"

definition detect_devanagari_language :: "pystr \<Rightarrow> error + (pystr \<times> int)" where
  "detect_devanagari_language text =
    (let scores = lang_scores text in
     if scores \<noteq> [] then
       (case max_by_value scores of
          Inl e \<Rightarrow> Inl e
        | Inr best \<Rightarrow>
            (case subscript scores (fst best) of
               Inl e \<Rightarrow> Inl e
             | Inr s \<Rightarrow> Inr (fst best, s)))
     else Inr (hi, 0))"

subsection \<open>\<open>detect_language\<close>\<close>

text \<open>
  The generic statistical detector \<^verbatim>\<open>langdetect.detect\<close> is an external collaborator: it
  is a parameter \<open>detect\<close> that returns a language code or raises. \<open>detect_language\<close>
  returns its value (or the exception that escapes it) together with the trace of what it
  did: which detector it invoked and which lines it printed.
\<close>

datatype event =
    Scored pystr                \<comment> \<open>\<open>detect_devanagari_language(text)\<close> was invoked\<close>
  | Langdetect pystr            \<comment> \<open>\<open>detect(text)\<close> was invoked\<close>
  | Print_devanagari            \<comment> \<open>"Detected Devanagari script - using custom detection"\<close>
  | Print_custom pystr int      \<comment> \<open>"Custom detection: lang (confidence: n)"\<close>
  | Print_langdetect pystr      \<comment> \<open>"Langdetect result: lang"\<close>
  | Print_unsupported pystr     \<comment> \<open>"Langdetect returned unsupported language: lang"\<close>
  | Print_failed                \<comment> \<open>"Langdetect failed, using fallback"\<close>

definition detect_language ::
  "(pystr \<Rightarrow> error + pystr) \<Rightarrow> pystr \<Rightarrow> (error + pystr) \<times> event list" where
  "detect_language detect text =
    (if text = [] \<or> length (strip text) < 2 then (Inr hin_Deva, [])
     else if is_devanagari_script text then
       (case detect_devanagari_language text of
          Inl e \<Rightarrow> (Inl e, [Print_devanagari, Scored text])
        | Inr (devanagari_lang, confidence) \<Rightarrow>
            (subscript lang_code_map devanagari_lang,
             [Print_devanagari, Scored text, Print_custom devanagari_lang confidence]))
     else
       (case detect text of
          Inr detected_lang \<Rightarrow>
            (case map_of lang_code_map detected_lang of
               Some code \<Rightarrow> (Inr code, [Langdetect text, Print_langdetect detected_lang])
             | None \<Rightarrow>
                 (Inr hin_Deva,
                  [Langdetect text, Print_langdetect detected_lang,
                   Print_unsupported detected_lang]))
        | Inl LangDetectException \<Rightarrow> (Inr hin_Deva, [Langdetect text, Print_failed])
        | Inl e \<Rightarrow> (Inl e, [Langdetect text])))"

text \<open>
  The keyword tables matched by a text: for one language, the keywords of its table that
  occur in the text, in table order.
\<close>

definition matching :: "pystr \<Rightarrow> (pystr \<times> int) list \<Rightarrow> pystr list" where
  "matching text indicators = filter (\<lambda>word. str_in word text) (map fst indicators)"

text \<open>
  Two sample texts: the Hindi keyword "hai" (U+0939 U+0948) once, twice in a row, and
  twice with a space between.
\<close>

definition hai :: pystr where
  "hai = [0x939, 0x948]"

definition hai_hai :: pystr where
  "hai_hai = [0x939, 0x948, 0x939, 0x948]"

definition hai_space_hai :: pystr where
  "hai_space_hai = [0x939, 0x948, 0x20, 0x939, 0x948]"

section \<open>JSON values\<close>

text \<open>
  What \<^verbatim>\<open>json.load\<close> returns. An object is a dict, kept as an association list in
  insertion order with distinct keys. Numbers are only ever told apart from strings and
  containers here, so one constructor stands for them.
\<close>

datatype json =
    JNull
  | JBool bool
  | JNum int
  | JStr pystr
  | JArr "json list"
  | JObj "(pystr \<times> json) list"

text \<open>\<^verbatim>\<open>x.get(k, default)\<close>: only a dict has the method.\<close>

fun dict_get :: "json \<Rightarrow> pystr \<Rightarrow> json \<Rightarrow> error + json" where
  "dict_get (JObj kvs) k d = Inr (case map_of kvs k of None \<Rightarrow> d | Some v \<Rightarrow> v)"
| "dict_get _ k d = Inl AttributeError"

text \<open>\<^verbatim>\<open>len(x)\<close>: strings, lists and dicts have a length.\<close>

fun len :: "json \<Rightarrow> error + nat" where
  "len (JStr s) = Inr (length s)"
| "len (JArr xs) = Inr (length xs)"
| "len (JObj kvs) = Inr (length kvs)"
| "len _ = Inl TypeError"

text \<open>\<^verbatim>\<open>for item in x\<close>: a list gives its items, a dict its keys, a string its characters.\<close>

fun iterate :: "json \<Rightarrow> error + json list" where
  "iterate (JArr xs) = Inr xs"
| "iterate (JObj kvs) = Inr (map (\<lambda>kv. JStr (fst kv)) kvs)"
| "iterate (JStr s) = Inr (map (\<lambda>c. JStr [c]) s)"
| "iterate _ = Inl TypeError"

text \<open>\<^verbatim>\<open>w in x\<close> for a string \<open>w\<close>.\<close>

fun py_in :: "pystr \<Rightarrow> json \<Rightarrow> error + bool" where
  "py_in w (JStr t) = Inr (str_in w t)"
| "py_in w (JArr xs) = Inr (List.member xs (JStr w))"
| "py_in w (JObj kvs) = Inr (List.member (map fst kvs) w)"
| "py_in w _ = Inl TypeError"

text \<open>\<^verbatim>\<open>xs[i]\<close> for \<open>i \<ge> 0\<close>.\<close>

definition index :: "'a list \<Rightarrow> nat \<Rightarrow> error + 'a" where
  "index xs i = (if i < length xs then Inr (xs ! i) else Inl IndexError)"

text \<open>\<^verbatim>\<open>d[k] = v\<close> on a dict: replaces the value of an existing key, else appends.\<close>

fun assign :: "(pystr \<times> json) list \<Rightarrow> pystr \<Rightarrow> json \<Rightarrow> (pystr \<times> json) list" where
  "assign [] k v = [(k, v)]"
| "assign ((k', v') # kvs) k v = (if k' = k then (k, v) # kvs else (k', v') # assign kvs k v)"

text \<open>
  \<^verbatim>\<open>json.dump(v, f, ensure_ascii=False)\<close> into a file opened with
  \<^verbatim>\<open>encoding='utf-8'\<close> writes every string of \<open>v\<close> as it is, keys included. A
  surrogate code point (U+D800 to U+DFFF; \<^verbatim>\<open>json.load\<close> yields one for an escape of
  a lone surrogate) has no UTF-8 encoding, so the write raises
  \<^verbatim>\<open>UnicodeEncodeError\<close> and leaves a truncated file. \<open>encodable\<close> says that a value
  can be written.
\<close>

definition is_surrogate :: "nat \<Rightarrow> bool" where
  "is_surrogate c = (0xD800 \<le> c \<and> c \<le> 0xDFFF)"

definition utf8_encodable :: "pystr \<Rightarrow> bool" where
  "utf8_encodable s = (\<not> list_ex is_surrogate s)"

fun encodable :: "json \<Rightarrow> bool"
  and encodable_items :: "json list \<Rightarrow> bool"
  and encodable_fields :: "(pystr \<times> json) list \<Rightarrow> bool" where
  "encodable JNull = True"
| "encodable (JBool b) = True"
| "encodable (JNum n) = True"
| "encodable (JStr s) = utf8_encodable s"
| "encodable (JArr xs) = encodable_items xs"
| "encodable (JObj kvs) = encodable_fields kvs"
| "encodable_items [] = True"
| "encodable_items (x # xs) = (encodable x \<and> encodable_items xs)"
| "encodable_fields [] = True"
| "encodable_fields ((k, v) # kvs) = (utf8_encodable k \<and> encodable v \<and> encodable_fields kvs)"

section \<open>String operations\<close>

text \<open>
  \<^verbatim>\<open>t.find(sep)\<close>, \<^verbatim>\<open>t.split(sep, 1)\<close>, \<^verbatim>\<open>t.split(sep)\<close>, \<^verbatim>\<open>t.endswith(s)\<close> and
  \<^verbatim>\<open>sep.join(parts)\<close>. The source only splits at non-empty literal separators (Python
  raises \<^verbatim>\<open>ValueError\<close> on an empty one); \<open>split\<close> returns the text unsplit there.
\<close>

fun str_find :: "'a list \<Rightarrow> 'a list \<Rightarrow> nat option" where
  "str_find [] sep = (if sep = [] then Some 0 else None)"
| "str_find (c # cs) sep =
     (if startswith (c # cs) sep then Some 0 else map_option Suc (str_find cs sep))"

definition split_once :: "'a list \<Rightarrow> 'a list \<Rightarrow> 'a list list" where
  "split_once t sep =
    (case str_find t sep of
       None \<Rightarrow> [t]
     | Some i \<Rightarrow> [take i t, drop (i + length sep) t])"

function split :: "'a list \<Rightarrow> 'a list \<Rightarrow> 'a list list" where
  "split t sep =
    (if sep = [] then [t]
     else (case str_find t sep of
             None \<Rightarrow> [t]
           | Some i \<Rightarrow> take i t # split (drop (i + length sep) t) sep))"
  by pat_completeness auto
termination
proof (relation "measure (\<lambda>(t, sep). length t)")
  show "wf (measure (\<lambda>(t, sep). length t))" by simp
next
  fix t sep :: "'a list" and i
  assume sep: "sep \<noteq> []" and found: "str_find t sep = Some i"
  have "t \<noteq> []" using sep found by (cases t) auto
  moreover have "0 < length sep" using sep by simp
  ultimately show "((drop (i + length sep) t, sep), (t, sep)) \<in> measure (\<lambda>(t, sep). length t)"
    by simp
qed

definition endswith :: "'a list \<Rightarrow> 'a list \<Rightarrow> bool" where
  "endswith t s = startswith (rev t) (rev s)"

fun join :: "'a list \<Rightarrow> 'a list list \<Rightarrow> 'a list" where
  "join sep [] = []"
| "join sep [x] = x"
| "join sep (x # y # ys) = x @ sep @ join sep (y # ys)"

text \<open>
  Decimal digits of a number, and the zero padding of \<^verbatim>\<open>f"{n:04d}"\<close> and
  \<^verbatim>\<open>f"{n:02d}"\<close> (for \<open>n \<ge> 0\<close>).
\<close>

fun decimal :: "nat \<Rightarrow> pystr" where
  "decimal n = (if n < 10 then [48 + n] else decimal (n div 10) @ [48 + n mod 10])"

definition zfill :: "nat \<Rightarrow> pystr \<Rightarrow> pystr" where
  "zfill width s = replicate (width - length s) 48 @ s"

section \<open>The analysis pipeline (src/final.py)\<close>

subsection \<open>Files\<close>

text \<open>
  A directory is the list \<^verbatim>\<open>os.listdir\<close> returns, each name with the result of opening
  the file and parsing it with \<^verbatim>\<open>json.load\<close>: \<open>None\<close> when either raises. A directory
  that does not exist is \<open>None\<close> of type \<open>directory option\<close>. \<open>json_files\<close> is
  the list comprehension keeping the names that end in ".json", sorted as
  \<^verbatim>\<open>list.sort()\<close> sorts strings (code point by code point).
\<close>

type_synonym directory = "(pystr \<times> json option) list"

definition json_files :: "directory \<Rightarrow> directory" where
  "json_files d = sort_key fst (filter (\<lambda>entry. endswith (fst entry) (ustr ''.json'')) d)"

text \<open>The chunks a directory's readable files hold, in the order read.\<close>

fun readable :: "json option list \<Rightarrow> json list" where
  "readable [] = []"
| "readable (None # files) = readable files"
| "readable (Some chunk_data # files) = chunk_data # readable files"

subsection \<open>\<open>estimate_char_length\<close>\<close>

definition MAX_BATCH_CHARS :: int where
  "MAX_BATCH_CHARS = 8000 * 4"

definition estimate_char_length :: "json \<Rightarrow> error + nat" where
  "estimate_char_length chunk_data =
    (case dict_get chunk_data (ustr ''page_content'') (JStr []) of
       Inl e \<Rightarrow> Inl e
     | Inr v \<Rightarrow> len v)"

text \<open>
  A chunk as the chunker writes it: a dict whose \<^verbatim>\<open>page_content\<close>, when present, is a
  string (the source annotates \<^verbatim>\<open>chunk_data: Dict[str, Any]\<close>).
\<close>

fun is_chunk :: "json \<Rightarrow> bool" where
  "is_chunk (JObj kvs) =
     (case map_of kvs (ustr ''page_content'') of
        None \<Rightarrow> True
      | Some (JStr s) \<Rightarrow> True
      | Some _ \<Rightarrow> False)"
| "is_chunk _ = False"

subsection \<open>\<open>create_batches\<close>\<close>

text \<open>
  The loop's variables, with the batch files written so far: each with the number
  \<^verbatim>\<open>batch_count\<close> that names it and the list of chunks dumped into it.
\<close>

record batch_state =
  batch_files :: "(nat \<times> json list) list"
  current_batch_content :: "json list"
  current_batch_size_chars :: int
  batch_count :: nat

text \<open>
  \<open>save_batch\<close> dumps the current batch into its file and then updates the variables
  (\<open>saved\<close>). The dump raises \<^verbatim>\<open>UnicodeEncodeError\<close> when a chunk of the batch cannot
  be encoded; the variables are unchanged then, and the truncated file it leaves is not a
  batch file written.
\<close>

definition saved :: "batch_state \<Rightarrow> batch_state" where
  "saved st =
    st\<lparr>batch_files := batch_files st @ [(batch_count st, current_batch_content st)],
       batch_count := batch_count st + 1,
       current_batch_content := [],
       current_batch_size_chars := 0\<rparr>"

definition save_batch :: "batch_state \<Rightarrow> error + batch_state" where
  "save_batch st =
    (if encodable (JArr (current_batch_content st)) then Inr (saved st)
     else Inl UnicodeEncodeError)"

text \<open>
  The loop over the chunk files. A file that cannot be read is skipped
  (\<^verbatim>\<open>except Exception: continue\<close>); an exception of \<open>estimate_char_length\<close> or of
  \<open>save_batch\<close> is outside the \<^verbatim>\<open>try\<close> and ends the loop, leaving the batch files
  written so far.
\<close>

fun batch_loop :: "int \<Rightarrow> json option list \<Rightarrow> batch_state \<Rightarrow> batch_state \<times> error option" where
  "batch_loop max_batch_chars [] st = (st, None)"
| "batch_loop max_batch_chars (None # files) st = batch_loop max_batch_chars files st"
| "batch_loop max_batch_chars (Some chunk_data # files) st =
    (case estimate_char_length chunk_data of
       Inl e \<Rightarrow> (st, Some e)
     | Inr n \<Rightarrow>
         (let chunk_size_chars = int n in
          if current_batch_size_chars st + chunk_size_chars > max_batch_chars
             \<and> current_batch_content st \<noteq> []
          then (case save_batch st of
                  Inl e \<Rightarrow> (st, Some e)
                | Inr st1 \<Rightarrow>
                    batch_loop max_batch_chars files
                      (st1\<lparr>current_batch_content := [chunk_data],
                           current_batch_size_chars := chunk_size_chars\<rparr>))
          else batch_loop max_batch_chars files
                 (st\<lparr>current_batch_content := current_batch_content st @ [chunk_data],
                     current_batch_size_chars :=
                       current_batch_size_chars st + chunk_size_chars\<rparr>)))"

definition initial_batch_state :: batch_state where
  "initial_batch_state =
    \<lparr>batch_files = [], current_batch_content = [], current_batch_size_chars = 0,
     batch_count = 1\<rparr>"

text \<open>
  \<open>create_batches\<close> returns the batch files it wrote (completely) and its return
  value, or the exception that escaped it. The "batches" directory is taken to be another one than the
  chunks directory, as with the default paths.
\<close>

definition create_batches ::
  "directory option \<Rightarrow> int \<Rightarrow> (nat \<times> json list) list \<times> (error + nat)" where
  "create_batches chunks_dir max_batch_chars =
    (case chunks_dir of
       None \<Rightarrow> ([], Inr 0)
     | Some d \<Rightarrow>
         (case batch_loop max_batch_chars (map snd (json_files d)) initial_batch_state of
            (st, Some e) \<Rightarrow> (batch_files st, Inl e)
          | (st, None) \<Rightarrow>
              (if current_batch_content st \<noteq> [] then
                 (case save_batch st of
                    Inl e \<Rightarrow> (batch_files st, Inl e)
                  | Inr st' \<Rightarrow> (batch_files st', Inr (batch_count st' - 1)))
               else (batch_files st, Inr (batch_count st - 1)))))"

text \<open>
  A batch respects the budget when every chunk in it has an estimated length and these
  sum to at most the budget, or it is one chunk that is over the budget by itself.
\<close>

fun estimates :: "json list \<Rightarrow> (error + nat list)" where
  "estimates [] = Inr []"
| "estimates (c # cs) =
     (case estimate_char_length c of
        Inl e \<Rightarrow> Inl e
      | Inr n \<Rightarrow> (case estimates cs of Inl e \<Rightarrow> Inl e | Inr ns \<Rightarrow> Inr (n # ns)))"

definition within_budget :: "int \<Rightarrow> json list \<Rightarrow> bool" where
  "within_budget max_batch_chars batch =
    (case estimates batch of
       Inl e \<Rightarrow> False
     | Inr ns \<Rightarrow> int (sum_list ns) \<le> max_batch_chars
                \<or> (length batch = 1 \<and> int (sum_list ns) > max_batch_chars))"

definition oversized :: "int \<Rightarrow> json \<Rightarrow> bool" where
  "oversized max_batch_chars chunk_data =
    (case estimate_char_length chunk_data of
       Inl e \<Rightarrow> False
     | Inr n \<Rightarrow> int n > max_batch_chars)"

subsection \<open>\<open>process_and_chunk_reddit_data\<close>\<close>

definition NA :: pystr where
  "NA = ustr ''N/A''"

text \<open>
  The subreddit of a post, from the value of \<^verbatim>\<open>post.get('url', '')\<close>. The test
  \<^verbatim>\<open>'/r/' in url\<close> raises on a value that is no container; on a list or a dict that
  holds '/r/' the call \<^verbatim>\<open>url.split\<close> raises \<^verbatim>\<open>AttributeError\<close>. Only an
  \<^verbatim>\<open>IndexError\<close> is caught and gives "N/A". (The source repeats the test inside the
  \<^verbatim>\<open>try\<close>; it has the same value there.)
\<close>

definition parse_subreddit :: "json \<Rightarrow> error + pystr" where
  "parse_subreddit url =
    (case py_in (ustr ''/r/'') url of
       Inl e \<Rightarrow> Inl e
     | Inr False \<Rightarrow> Inr NA
     | Inr True \<Rightarrow>
         (case url of
            JStr u \<Rightarrow>
              (case index (split_once u (ustr ''/r/'')) 1 of
                 Inl e \<Rightarrow> (if e = IndexError then Inr NA else Inl e)
               | Inr subreddit_segment \<Rightarrow>
                   (case index (split subreddit_segment (ustr ''/'')) 0 of
                      Inl e \<Rightarrow> (if e = IndexError then Inr NA else Inl e)
                    | Inr subreddit \<Rightarrow> Inr subreddit))
          | _ \<Rightarrow> Inl AttributeError))"

text \<open>
  A \<^verbatim>\<open>Document\<close>. An f-string shows a string as it is; what it shows for any other
  value is Python's \<^verbatim>\<open>str()\<close> of it, the parameter \<open>repr\<close>.
\<close>

record document =
  page_content :: pystr
  metadata :: "(pystr \<times> json) list"

definition format_value :: "(json \<Rightarrow> pystr) \<Rightarrow> json \<Rightarrow> pystr" where
  "format_value repr v = (case v of JStr s \<Rightarrow> s | _ \<Rightarrow> repr v)"

definition lookup :: "(pystr \<times> json) list \<Rightarrow> pystr \<Rightarrow> json \<Rightarrow> json" where
  "lookup kvs k d = (case map_of kvs k of None \<Rightarrow> d | Some v \<Rightarrow> v)"

text \<open>
  The body of the loop over the posts. Every access is \<^verbatim>\<open>post.get\<close>, which raises
  \<^verbatim>\<open>AttributeError\<close> at the first one when the post is not a dict.
\<close>

definition make_document :: "(json \<Rightarrow> pystr) \<Rightarrow> json \<Rightarrow> error + document" where
  "make_document repr post =
    (case post of
       JObj kvs \<Rightarrow>
         (let content =
                ustr ''Title: '' @ format_value repr (lookup kvs (ustr ''title'') (JStr NA))
                @ [10] @ ustr ''URL: '' @ format_value repr (lookup kvs (ustr ''url'') (JStr NA))
                @ [10] @ ustr ''Post Body:'' @ [10]
                @ format_value repr (lookup kvs (ustr ''selftext'') (JStr NA));
              url = lookup kvs (ustr ''url'') (JStr [])
          in case parse_subreddit url of
               Inl e \<Rightarrow> Inl e
             | Inr subreddit \<Rightarrow>
                 Inr \<lparr>page_content = content,
                      metadata =
                        [(ustr ''source_url'', lookup kvs (ustr ''url'') (JStr NA)),
                         (ustr ''post_title'', lookup kvs (ustr ''title'') (JStr NA)),
                         (ustr ''subreddit'', JStr subreddit),
                         (ustr ''score'', lookup kvs (ustr ''score'') JNull)]\<rparr>)
     | _ \<Rightarrow> Inl AttributeError)"

fun make_documents :: "(json \<Rightarrow> pystr) \<Rightarrow> json list \<Rightarrow> error + document list" where
  "make_documents repr [] = Inr []"
| "make_documents repr (post # posts) =
     (case make_document repr post of
        Inl e \<Rightarrow> Inl e
      | Inr d \<Rightarrow>
          (case make_documents repr posts of
             Inl e \<Rightarrow> Inl e
           | Inr ds \<Rightarrow> Inr (d # ds)))"

text \<open>
  A chunk is dumped as the dict of its two fields (the splitter library's own
  \<^verbatim>\<open>model_dump\<close> adds an id and a type, which nothing reads) into the file
  \<^verbatim>\<open>chunk_NNNN.json\<close>, numbered from 1. \<open>chunk_file_list\<close> lists the files of a run
  that writes them all; the loop \<open>write_chunks\<close> raises \<^verbatim>\<open>UnicodeEncodeError\<close> at the
  first chunk that cannot be encoded, outside any \<^verbatim>\<open>try\<close>.
\<close>

definition dump_document :: "document \<Rightarrow> json" where
  "dump_document d =
    JObj [(ustr ''page_content'', JStr (page_content d)), (ustr ''metadata'', JObj (metadata d))]"

definition chunk_filename :: "nat \<Rightarrow> pystr" where
  "chunk_filename i = ustr ''chunk_'' @ zfill 4 (decimal i) @ ustr ''.json''"

definition chunk_file_list :: "document list \<Rightarrow> (pystr \<times> json) list" where
  "chunk_file_list chunked_documents =
    map (\<lambda>(i, chunk). (chunk_filename (i + 1), dump_document chunk))
      (enumerate 0 chunked_documents)"

definition write_chunks :: "document list \<Rightarrow> error + (pystr \<times> json) list" where
  "write_chunks chunked_documents =
    (if list_all (\<lambda>chunk. encodable (dump_document chunk)) chunked_documents
     then Inr (chunk_file_list chunked_documents)
     else Inl UnicodeEncodeError)"

text \<open>Lines the pipeline prints.\<close>

datatype message =
    Input_not_found             \<comment> \<open>"Error: Input file ... not found."\<close>
  | Starting_chunking
  | Chunking_complete nat       \<comment> \<open>"Chunking complete. Created n chunks."\<close>
  | Starting_batching
  | Batching_complete nat       \<comment> \<open>"Batching complete. Created n batches."\<close>
  | Starting_analysis
  | Pipeline_finished nat       \<comment> \<open>"Analysis pipeline finished. Total claims: n"\<close>

text \<open>
  The input file is \<open>None\<close> when it does not exist, \<open>Some (Inl e)\<close> when opening or
  parsing it raises \<open>e\<close>, and \<open>Some (Inr v)\<close> when \<^verbatim>\<open>json.load\<close> returns \<open>v\<close>. The text
  splitter is an external collaborator, the parameter \<open>split_documents\<close> (its construction
  included); it returns the chunked documents or raises. The result is the chunk count
  with the chunk files written (older ".json" files of the directory are removed first),
  or the exception that escapes, and the lines printed.
\<close>

definition process_and_chunk_reddit_data ::
  "(json \<Rightarrow> pystr) \<Rightarrow> (document list \<Rightarrow> error + document list) \<Rightarrow> (error + json) option
    \<Rightarrow> (error + nat \<times> (pystr \<times> json) list) \<times> message list" where
  "process_and_chunk_reddit_data repr split_documents input_file =
    (case input_file of
       None \<Rightarrow> (Inr (0, []), [Input_not_found])
     | Some (Inl e) \<Rightarrow> (Inl e, [])
     | Some (Inr all_posts_data) \<Rightarrow>
         (case iterate all_posts_data of
            Inl e \<Rightarrow> (Inl e, [])
          | Inr posts \<Rightarrow>
              (case make_documents repr posts of
                 Inl e \<Rightarrow> (Inl e, [])
               | Inr documents \<Rightarrow>
                   (case split_documents documents of
                      Inl e \<Rightarrow> (Inl e, [])
                    | Inr chunked_documents \<Rightarrow>
                        (case write_chunks chunked_documents of
                           Inl e \<Rightarrow> (Inl e, [])
                         | Inr files \<Rightarrow> (Inr (length chunked_documents, files), []))))))"

subsection \<open>\<open>analyze_batches\<close>\<close>

text \<open>
  The prompt text of a batch: \<^verbatim>\<open>join\<close> first runs the generator over all items, each
  an \<^verbatim>\<open>item.get\<close>, and then insists that every value is a string.
\<close>

fun get_all :: "json list \<Rightarrow> error + json list" where
  "get_all [] = Inr []"
| "get_all (item # items) =
     (case dict_get item (ustr ''page_content'') (JStr []) of
        Inl e \<Rightarrow> Inl e
      | Inr v \<Rightarrow> (case get_all items of Inl e \<Rightarrow> Inl e | Inr vs \<Rightarrow> Inr (v # vs)))"

fun strings :: "json list \<Rightarrow> error + pystr list" where
  "strings [] = Inr []"
| "strings (JStr s # vs) = (case strings vs of Inl e \<Rightarrow> Inl e | Inr ss \<Rightarrow> Inr (s # ss))"
| "strings (_ # vs) = Inl TypeError"

definition NEXT_CHUNK :: pystr where
  "NEXT_CHUNK = [10, 10] @ ustr ''--- NEXT CHUNK ---'' @ [10, 10]"

definition batch_text :: "json \<Rightarrow> error + pystr" where
  "batch_text batch_data =
    (case iterate batch_data of
       Inl e \<Rightarrow> Inl e
     | Inr items \<Rightarrow>
         (case get_all items of
            Inl e \<Rightarrow> Inl e
          | Inr vs \<Rightarrow> (case strings vs of Inl e \<Rightarrow> Inl e | Inr ss \<Rightarrow> Inr (join NEXT_CHUNK ss))))"

text \<open>
  Stamping the claims of a batch: \<^verbatim>\<open>claim_data['batch_id'] = ...\<close> needs a dict and
  raises \<^verbatim>\<open>TypeError\<close> on anything else the model's JSON may hold.
\<close>

fun stamp_claims :: "pystr \<Rightarrow> nat \<Rightarrow> json list \<Rightarrow> error + json list" where
  "stamp_claims batch_id chunk_count [] = Inr []"
| "stamp_claims batch_id chunk_count (JObj kvs # rest) =
     (case stamp_claims batch_id chunk_count rest of
        Inl e \<Rightarrow> Inl e
      | Inr stamped \<Rightarrow>
          Inr (JObj (assign (assign kvs (ustr ''batch_id'') (JStr batch_id))
                       (ustr ''chunk_count'') (JNum (int chunk_count))) # stamped))"
| "stamp_claims batch_id chunk_count (_ # rest) = Inl TypeError"

text \<open>
  The model call \<^verbatim>\<open>call_local_analysis\<close> is a parameter: it catches what its model
  raises and returns \<open>None\<close> then, else the parsed JSON of the model's answer. An answer
  is used when it is a non-empty list.
\<close>

fun analysis_loop ::
  "(pystr \<Rightarrow> json option) \<Rightarrow> directory \<Rightarrow> json list \<Rightarrow> error + json list" where
  "analysis_loop call_local_analysis [] all_analysis_results = Inr all_analysis_results"
| "analysis_loop call_local_analysis ((filename, None) # files) all_analysis_results =
     analysis_loop call_local_analysis files all_analysis_results"
| "analysis_loop call_local_analysis ((filename, Some batch_data) # files) all_analysis_results =
     (case index (split filename (ustr ''.'')) 0 of
        Inl e \<Rightarrow> Inl e
      | Inr batch_id \<Rightarrow>
          (case batch_text batch_data of
             Inl e \<Rightarrow> Inl e
           | Inr full_batch_content \<Rightarrow>
               (case call_local_analysis full_batch_content of
                  Some (JArr (claim # claims)) \<Rightarrow>
                    (case len batch_data of
                       Inl e \<Rightarrow> Inl e
                     | Inr chunk_count \<Rightarrow>
                         (case stamp_claims batch_id chunk_count (claim # claims) of
                            Inl e \<Rightarrow> Inl e
                          | Inr stamped \<Rightarrow>
                              analysis_loop call_local_analysis files
                                (all_analysis_results @ stamped)))
                | _ \<Rightarrow> analysis_loop call_local_analysis files all_analysis_results)))"

text \<open>
  \<open>analyze_batches\<close> returns its list of claims (or the exception that escapes it) and
  what it wrote to \<^verbatim>\<open>combined_analysis_report.json\<close>: \<open>None\<close> when it did not write.
  The report is written only for a non-empty list; that dump, too, raises
  \<^verbatim>\<open>UnicodeEncodeError\<close> on a claim that cannot be encoded, and then leaves no report
  but a truncated file.
\<close>

definition analyze_batches ::
  "(pystr \<Rightarrow> json option) \<Rightarrow> directory option \<Rightarrow> (error + json list) \<times> json list option" where
  "analyze_batches call_local_analysis batches_dir =
    (case batches_dir of
       None \<Rightarrow> (Inr [], None)
     | Some d \<Rightarrow>
         (case analysis_loop call_local_analysis (json_files d) [] of
            Inl e \<Rightarrow> (Inl e, None)
          | Inr all_analysis_results \<Rightarrow>
              (if all_analysis_results \<noteq> [] then
                 (if encodable (JArr all_analysis_results)
                  then (Inr all_analysis_results, Some all_analysis_results)
                  else (Inl UnicodeEncodeError, None))
               else (Inr all_analysis_results, None))))"

text \<open>A batch file holds a list of chunks.\<close>

fun is_batch :: "json \<Rightarrow> bool" where
  "is_batch (JArr chunks) = list_all is_chunk chunks"
| "is_batch _ = False"

subsection \<open>\<open>run_full_analysis_pipeline\<close>\<close>

text \<open>
  The stages run one after the other on the default directories: the batcher reads the
  chunk files the chunker wrote, the analysis reads the batch files the batcher wrote
  (\<^verbatim>\<open>batch_NN.json\<close>, each a JSON list). An exception of a stage is not caught.
\<close>

definition batch_filename :: "nat \<Rightarrow> pystr" where
  "batch_filename n = ustr ''batch_'' @ zfill 2 (decimal n) @ ustr ''.json''"

definition as_directory :: "(pystr \<times> json) list \<Rightarrow> directory" where
  "as_directory files = map (\<lambda>(filename, v). (filename, Some v)) files"

definition batches_directory :: "(nat \<times> json list) list \<Rightarrow> directory" where
  "batches_directory batches =
    as_directory (map (\<lambda>(n, chunks). (batch_filename n, JArr chunks)) batches)"

record outcome =
  returned :: "error + json list"
  report_file :: "json list option"
  printed :: "message list"

definition run_full_analysis_pipeline ::
  "(json \<Rightarrow> pystr) \<Rightarrow> (document list \<Rightarrow> error + document list) \<Rightarrow> (pystr \<Rightarrow> json option)
    \<Rightarrow> (error + json) option \<Rightarrow> outcome" where
  "run_full_analysis_pipeline repr split_documents call_local_analysis input_file =
    (case process_and_chunk_reddit_data repr split_documents input_file of
       (Inl e, out) \<Rightarrow>
         \<lparr>returned = Inl e, report_file = None, printed = Starting_chunking # out\<rparr>
     | (Inr (chunk_count, chunk_files), out) \<Rightarrow>
         if chunk_count = 0 then
           \<lparr>returned = Inr [], report_file = None, printed = Starting_chunking # out\<rparr>
         else
           (let out1 = Starting_chunking # out @ [Chunking_complete chunk_count, Starting_batching]
            in case create_batches (Some (as_directory chunk_files)) MAX_BATCH_CHARS of
                 (batches, Inl e) \<Rightarrow>
                   \<lparr>returned = Inl e, report_file = None, printed = out1\<rparr>
               | (batches, Inr n_batches) \<Rightarrow>
                   if n_batches = 0 then
                     \<lparr>returned = Inr [], report_file = None, printed = out1\<rparr>
                   else
                     (let out2 = out1 @ [Batching_complete n_batches, Starting_analysis]
                      in case analyze_batches call_local_analysis
                                (Some (batches_directory batches)) of
                           (Inl e, report) \<Rightarrow>
                             \<lparr>returned = Inl e, report_file = report, printed = out2\<rparr>
                         | (Inr results, report) \<Rightarrow>
                             \<lparr>returned = Inr results, report_file = report,
                              printed = out2 @ [Pipeline_finished (length results)]\<rparr>)))"

section \<open>Auxiliary definitions for the proofs\<close>

text \<open>
  All chunks a loop state holds, in order: those of the batch files written and those of
  the batch being filled.
\<close>

definition chunks_of :: "batch_state \<Rightarrow> json list" where
  "chunks_of st = concat (map snd (batch_files st)) @ current_batch_content st"

text \<open>
  The batch files written are numbered from 1 up to the counter, and none of them is an
  empty list.
\<close>

definition numbered :: "batch_state \<Rightarrow> bool" where
  "numbered st = (map fst (batch_files st) = [1..<batch_count st] \<and> 1 \<le> batch_count st
                  \<and> [] \<notin> set (map snd (batch_files st)))"

text \<open>
  The size accounting of the loop: every batch file written respects the budget, the
  running size is the sum of the estimates of the batch being filled, and that batch is
  empty or respects the budget.
\<close>

definition accounted :: "int \<Rightarrow> batch_state \<Rightarrow> bool" where
  "accounted mx st =
    (list_all (within_budget mx) (map snd (batch_files st))
     \<and> (\<exists>ns. estimates (current_batch_content st) = Inr ns
              \<and> current_batch_size_chars st = int (sum_list ns))
     \<and> (current_batch_content st = [] \<or> within_budget mx (current_batch_content st)))"

text \<open>
  A sample chunks directory, listed out of order: four chunk files with texts of 8, 3, 2
  and 1 characters, one chunk file that cannot be read, and one file that is no ".json".
\<close>

definition sample_chunk :: "string \<Rightarrow> json" where
  "sample_chunk s = JObj [(ustr ''page_content'', JStr (ustr s)), (ustr ''metadata'', JObj [])]"

definition sample_chunks_dir :: directory where
  "sample_chunks_dir =
    [(ustr ''chunk_0003.json'', Some (sample_chunk ''abcdefgh'')),
     (ustr ''notes.txt'', None),
     (ustr ''chunk_0001.json'', Some (sample_chunk ''abc'')),
     (ustr ''chunk_0002.json'', Some (sample_chunk ''de'')),
     (ustr ''chunk_0004.json'', None),
     (ustr ''chunk_0005.json'', Some (sample_chunk ''x''))]"

text \<open>
  A chunks directory with one chunk file, as \<^verbatim>\<open>json.load\<close> reads it from the JSON
  text whose page content is "abc" followed by the escape of the lone surrogate U+D83D.
\<close>

definition surrogate_chunk :: json where
  "surrogate_chunk =
    JObj [(ustr ''page_content'', JStr [0x61, 0x62, 0x63, 0xD83D]), (ustr ''metadata'', JObj [])]"

definition surrogate_dir :: directory where
  "surrogate_dir = [(ustr ''chunk_0001.json'', Some surrogate_chunk)]"

text \<open>Every batch file of a directory that can be read holds a list of chunks.\<close>

definition readable_batches :: "directory \<Rightarrow> bool" where
  "readable_batches files =
    list_all (\<lambda>entry. case snd entry of None \<Rightarrow> True | Some b \<Rightarrow> is_batch b) files"

declare split.simps [simp del]
declare decimal.simps [simp del]

text \<open>A post url that ends at "/r/".\<close>

definition url_ending_in_r :: json where
  "url_ending_in_r = JStr (ustr ''https://www.reddit.com/r/'')"

text \<open>
  A sample batches directory (one batch file of two chunks, one file that cannot be
  read) and a sample input file with one post.
\<close>

definition sample_batches_dir :: directory where
  "sample_batches_dir =
    [(ustr ''batch_02.json'', None),
     (ustr ''batch_01.json'', Some (JArr [sample_chunk ''abc'', sample_chunk ''de'']))]"

definition sample_post :: json where
  "sample_post =
    JObj [(ustr ''title'', JStr (ustr ''News'')),
          (ustr ''url'', JStr (ustr ''https://www.reddit.com/r/india/comments/1'')),
          (ustr ''selftext'', JStr (ustr ''Body'')),
          (ustr ''score'', JNum 5)]"

definition sample_input :: "(error + json) option" where
  "sample_input = Some (Inr (JArr [sample_post]))"

section \<open>Properties of the language detector\<close>

lemmas tables =
  devanagari_indicators_def hi_indicators_def mr_indicators_def gu_indicators_def
  sa_indicators_def ne_indicators_def

subsection \<open>The keyword "hai" twice\<close>

lemma lang_scores_hai_hai: "lang_scores hai_hai = [(hi, 3)]"
  by (simp add: lang_scores_def tables hai_hai_def)

lemma lang_scores_hai_space_hai: "lang_scores hai_space_hai = [(hi, 3)]"
  by (simp add: lang_scores_def tables hai_space_hai_def)

lemma detect_hai_hai: "detect_devanagari_language hai_hai = Inr (hi, 3)"
  by (simp add: detect_devanagari_language_def lang_scores_hai_hai subscript_def)

lemma detect_hai_space_hai: "detect_devanagari_language hai_space_hai = Inr (hi, 3)"
  by (simp add: detect_devanagari_language_def lang_scores_hai_space_hai subscript_def)

text \<open>
  C1, as the code has it. For the text that is the keyword "hai" twice (with or without a
  space between), the only language that gets a score is Hindi, its score is 3 (the
  keyword's weight, counted once), the scorer returns Hindi with confidence 3, and
  \<open>detect_language\<close> returns the code \<open>hin_Deva\<close>.
\<close>

theorem hai_twice_scores_hindi_three:
  "lang_scores hai_hai = [(hi, 3)]
   \<and> detect_devanagari_language hai_hai = Inr (hi, 3)
   \<and> fst (detect_language detect hai_hai) = Inr hin_Deva
   \<and> lang_scores hai_space_hai = [(hi, 3)]
   \<and> detect_devanagari_language hai_space_hai = Inr (hi, 3)
   \<and> fst (detect_language detect hai_space_hai) = Inr hin_Deva"
proof -
  have a: "fst (detect_language detect hai_hai) = Inr hin_Deva"
    by (simp add: detect_language_def detect_hai_hai subscript_def lang_code_map_def)
       (simp add: hai_hai_def strip_def isspace_def is_devanagari_script_def)
  have b: "fst (detect_language detect hai_space_hai) = Inr hin_Deva"
    by (simp add: detect_language_def detect_hai_space_hai subscript_def lang_code_map_def)
       (simp add: hai_space_hai_def strip_def isspace_def is_devanagari_script_def)
  show ?thesis
    using a b lang_scores_hai_hai lang_scores_hai_space_hai detect_hai_hai detect_hai_space_hai
    by simp
qed

text \<open>
  C1 as stated fails: on that text Hindi's score is not 6 and the scorer does not return
  confidence 6.
\<close>

theorem hai_twice_does_not_score_six:
  "map_of (lang_scores hai_hai) hi \<noteq> Some 6
   \<and> detect_devanagari_language hai_hai \<noteq> Inr (hi, 6)
   \<and> map_of (lang_scores hai_space_hai) hi \<noteq> Some 6
   \<and> detect_devanagari_language hai_space_hai \<noteq> Inr (hi, 6)"
  by (simp add: lang_scores_hai_hai lang_scores_hai_space_hai detect_hai_hai
        detect_hai_space_hai)

subsection \<open>Short texts\<close>

lemma length_strip_le: "length (strip t) \<le> length t"
proof -
  have "length (strip t) \<le> length (dropWhile isspace t)"
    unfolding strip_def by (metis length_rev length_dropWhile_le)
  also have "\<dots> \<le> length t" by (rule length_dropWhile_le)
  finally show ?thesis .
qed

text \<open>
  C8. A text of fewer than two characters (the empty text included) gets the default code
  \<open>hin_Deva\<close>, whatever the statistical detector would do, and the trace is empty:
  neither the keyword scorer nor the statistical detector was invoked.
\<close>

theorem short_text_default:
  assumes "length text < 2"
  shows "detect_language detect text = (Inr hin_Deva, [])"
proof -
  have "length (strip text) < 2" using assms length_strip_le [of "text"] by linarith
  then show ?thesis by (simp add: detect_language_def)
qed

theorem short_text_default_witness:
  "length [0x939::nat] < 2
   \<and> detect_language (\<lambda>t. Inl OtherError) [0x939] = (Inr hin_Deva, [])
   \<and> detect_language (\<lambda>t. Inl OtherError) [] = (Inr hin_Deva, [])"
  using short_text_default [of "[0x939]" "\<lambda>t. Inl OtherError"]
    short_text_default [of "[]" "\<lambda>t. Inl OtherError"]
  by simp

subsection \<open>Scores depend on the matching keywords only\<close>

lemma keyword_score_cong:
  assumes "\<And>word weight. (word, weight) \<in> set indicators \<Longrightarrow> str_in word t1 = str_in word t2"
  shows "keyword_score t1 indicators score = keyword_score t2 indicators score"
  using assms
proof (induction indicators arbitrary: score)
  case Nil
  show ?case by simp
next
  case (Cons p rest)
  obtain word weight where p: "p = (word, weight)" by (cases p)
  have here: "str_in word t1 = str_in word t2" using Cons.prems [of word weight] p by simp
  have later: "keyword_score t1 rest s = keyword_score t2 rest s" for s
  proof (rule Cons.IH)
    fix w n
    assume "(w, n) \<in> set rest"
    then show "str_in w t1 = str_in w t2" using Cons.prems [of w n] by simp
  qed
  show ?case by (simp add: p here later)
qed

lemma matching_iff:
  assumes "(word, weight) \<in> set indicators"
  shows "word \<in> set (matching text indicators) \<longleftrightarrow> str_in word text"
  using assms by (force simp: matching_def)

lemma score_langs_cong:
  assumes "\<And>lang indicators. (lang, indicators) \<in> set table \<Longrightarrow>
             set (matching t1 indicators) = set (matching t2 indicators)"
  shows "score_langs t1 table = score_langs t2 table"
  using assms
proof (induction table)
  case Nil
  show ?case by simp
next
  case (Cons p rest)
  obtain lang indicators where p: "p = (lang, indicators)" by (cases p)
  have m: "set (matching t1 indicators) = set (matching t2 indicators)"
    using Cons.prems [of lang indicators] p by simp
  have "\<And>word weight. (word, weight) \<in> set indicators \<Longrightarrow> str_in word t1 = str_in word t2"
    using m matching_iff by blast
  then have here: "keyword_score t1 indicators 0 = keyword_score t2 indicators 0"
    by (rule keyword_score_cong)
  have later: "score_langs t1 rest = score_langs t2 rest"
  proof (rule Cons.IH)
    fix l ind
    assume "(l, ind) \<in> set rest"
    then show "set (matching t1 ind) = set (matching t2 ind)"
      using Cons.prems [of l ind] by simp
  qed
  show ?case by (simp add: p here later Let_def)
qed

text \<open>
  C10. Two texts that match the same keywords of every language's table get the same
  keyword score for every language, the same stored scores and the same detection
  result; how often a keyword occurs plays no part.
\<close>

theorem score_depends_on_matches_only:
  assumes "\<forall>(lang, indicators) \<in> set devanagari_indicators.
             set (matching t1 indicators) = set (matching t2 indicators)"
  shows "(\<forall>(lang, indicators) \<in> set devanagari_indicators.
             keyword_score t1 indicators 0 = keyword_score t2 indicators 0)
         \<and> lang_scores t1 = lang_scores t2
         \<and> detect_devanagari_language t1 = detect_devanagari_language t2"
proof -
  have m: "\<And>lang indicators. (lang, indicators) \<in> set devanagari_indicators \<Longrightarrow>
             set (matching t1 indicators) = set (matching t2 indicators)"
    using assms by blast
  have k: "\<And>lang indicators. (lang, indicators) \<in> set devanagari_indicators \<Longrightarrow>
             keyword_score t1 indicators 0 = keyword_score t2 indicators 0"
    using m matching_iff keyword_score_cong by metis
  have s: "lang_scores t1 = lang_scores t2"
    unfolding lang_scores_def using m by (rule score_langs_cong)
  from k s show ?thesis by (auto simp: detect_devanagari_language_def)
qed

theorem score_depends_on_matches_only_witness:
  "hai \<noteq> hai_hai \<and> lang_scores hai = lang_scores hai_hai
     \<and> detect_devanagari_language hai = detect_devanagari_language hai_hai
     \<and> matching hai hi_indicators = [hai] \<and> matching hai_hai hi_indicators = [hai]"
proof -
  have m1: "matching hai hi_indicators = [hai]" "matching hai mr_indicators = []"
    "matching hai gu_indicators = []" "matching hai sa_indicators = []"
    "matching hai ne_indicators = []"
    by (simp_all add: tables matching_def hai_def)
  have m2: "matching hai_hai hi_indicators = [hai]" "matching hai_hai mr_indicators = []"
    "matching hai_hai gu_indicators = []" "matching hai_hai sa_indicators = []"
    "matching hai_hai ne_indicators = []"
    by (simp_all add: tables matching_def hai_def hai_hai_def)
  have h: "\<forall>(lang, indicators) \<in> set devanagari_indicators.
             set (matching hai indicators) = set (matching hai_hai indicators)"
    by (simp add: devanagari_indicators_def m1 m2)
  have "hai \<noteq> hai_hai" by (simp add: hai_def hai_hai_def)
  then show ?thesis using score_depends_on_matches_only [OF h] m1 m2 by simp
qed

(* C9 *)

subsection \<open>The detected language has a code\<close>

lemma max_loop_mem: "max_loop xs best \<in> set (best # xs)"
  by (induction xs arbitrary: best) auto

lemma score_langs_keys: "fst ` set (score_langs text table) \<subseteq> fst ` set table"
proof (induction table)
  case Nil
  show ?case by simp
next
  case (Cons p rest)
  obtain lang indicators where p: "p = (lang, indicators)" by (cases p)
  show ?case using Cons.IH by (auto simp: p Let_def)
qed

lemma subscript_mem:
  assumes "x \<in> set d"
  shows "\<exists>v. subscript d (fst x) = Inr v"
proof -
  have "fst x \<in> fst ` set d" using assms by simp
  then have "map_of d (fst x) \<noteq> None" by (simp add: map_of_eq_None_iff)
  then show ?thesis by (auto simp: subscript_def)
qed

lemma detect_devanagari_language_total:
  "\<exists>lang conf. detect_devanagari_language text = Inr (lang, conf) \<and> lang \<in> set devanagari_langs"
proof (cases "lang_scores text")
  case Nil
  then show ?thesis by (simp add: detect_devanagari_language_def devanagari_langs_def)
next
  case (Cons x xs)
  define best where "best = max_loop xs x"
  have b: "best \<in> set (lang_scores text)" using max_loop_mem [of xs x] Cons best_def by simp
  then obtain v where v: "subscript (lang_scores text) (fst best) = Inr v"
    using subscript_mem by blast
  have "fst best \<in> fst ` set devanagari_indicators"
    using b score_langs_keys [of "text" devanagari_indicators] by (auto simp: lang_scores_def)
  then have l: "fst best \<in> set devanagari_langs"
    by (simp add: devanagari_indicators_def devanagari_langs_def)
  have "detect_devanagari_language text = Inr (fst best, v)"
    using v Cons by (simp add: detect_devanagari_language_def best_def)
  with l show ?thesis by blast
qed

lemma code_map_has_devanagari_langs:
  assumes "lang \<in> set devanagari_langs"
  shows "\<exists>code. subscript lang_code_map lang = Inr code"
  using assms
  by (auto simp: devanagari_langs_def subscript_def lang_code_map_def)

text \<open>
  C9. For a text with a Devanagari character, the keyword scorer returns one of the five
  codes hi, mr, gu, sa, ne; that code is a key of \<open>lang_code_map\<close>, so the subscript
  does not raise; and \<open>detect_language\<close> returns a code: the one looked up, or the
  default when the stripped text has fewer than two characters.
\<close>

theorem devanagari_lookup_never_fails:
  assumes "is_devanagari_script text"
  shows "\<exists>lang conf code.
           detect_devanagari_language text = Inr (lang, conf)
         \<and> lang \<in> set devanagari_langs
         \<and> subscript lang_code_map lang = Inr code
         \<and> detect_language detect text =
             (if length (strip text) < 2 then (Inr hin_Deva, [])
              else (Inr code, [Print_devanagari, Scored text, Print_custom lang conf]))"
proof -
  obtain lang conf where d: "detect_devanagari_language text = Inr (lang, conf)"
    and l: "lang \<in> set devanagari_langs"
    using detect_devanagari_language_total by blast
  obtain code where c: "subscript lang_code_map lang = Inr code"
    using code_map_has_devanagari_langs [OF l] by blast
  show ?thesis using d l c assms
    by (auto simp: detect_language_def is_devanagari_script_def)
qed

theorem devanagari_lookup_never_fails_witness:
  "is_devanagari_script hai_hai
   \<and> (\<exists>lang conf code.
         detect_devanagari_language hai_hai = Inr (lang, conf)
       \<and> lang \<in> set devanagari_langs
       \<and> subscript lang_code_map lang = Inr code
       \<and> detect_language (\<lambda>t. Inl OtherError) hai_hai =
           (if length (strip hai_hai) < 2 then (Inr hin_Deva, [])
            else (Inr code, [Print_devanagari, Scored hai_hai, Print_custom lang conf])))"
proof -
  have h: "is_devanagari_script hai_hai"
    by (simp add: is_devanagari_script_def hai_hai_def)
  show ?thesis
    using h devanagari_lookup_never_fails [OF h, of "\<lambda>t. Inl OtherError"] by simp
qed

section \<open>Properties of the batch assembler\<close>

subsection \<open>Estimates\<close>

lemma is_chunk_estimate:
  assumes "is_chunk c"
  shows "\<exists>n. estimate_char_length c = Inr n"
proof (cases c)
  case (JObj kvs)
  then show ?thesis using assms
    by (auto simp: estimate_char_length_def split: option.splits json.splits)
qed (use assms in simp_all)

lemma estimates_snoc:
  assumes "estimates cs = Inr ns" and "estimate_char_length c = Inr n"
  shows "estimates (cs @ [c]) = Inr (ns @ [n])"
  using assms
  by (induction cs arbitrary: ns) (auto split: sum.splits)

lemma estimates_mem:
  assumes "estimates cs = Inr ns" and "c \<in> set cs"
  shows "\<exists>n. estimate_char_length c = Inr n \<and> n \<le> sum_list ns"
  using assms
proof (induction cs arbitrary: ns)
  case Nil
  then show ?case by simp
next
  case (Cons x xs)
  then show ?case by (fastforce split: sum.splits)
qed

subsection \<open>Writing a batch\<close>

lemma encodable_items_iff: "encodable_items xs = list_all encodable xs"
  by (induction xs) auto

lemma save_batch_encodable:
  assumes "list_all encodable (current_batch_content st)"
  shows "save_batch st = Inr (saved st)"
  using assms by (simp add: save_batch_def encodable_items_iff)

lemma save_batch_returns:
  assumes "save_batch st = Inr st1"
  shows "st1 = saved st"
  using assms by (simp add: save_batch_def split: if_splits)

lemma save_batch_raises:
  assumes "save_batch st = Inl e"
  shows "e = UnicodeEncodeError \<and> \<not> list_all encodable (current_batch_content st)"
  using assms by (simp add: save_batch_def encodable_items_iff split: if_splits)

subsection \<open>The loop keeps every chunk\<close>

lemma chunks_of_saved [simp]: "chunks_of (saved st) = chunks_of st"
  by (simp add: chunks_of_def saved_def)

lemma batch_loop_partition:
  assumes "list_all is_chunk (readable files)"
    and "list_all encodable (readable files)"
    and "list_all encodable (current_batch_content st)"
  shows "\<exists>st'. batch_loop mx files st = (st', None)
           \<and> chunks_of st' = chunks_of st @ readable files
           \<and> list_all encodable (current_batch_content st')"
  using assms
proof (induction mx files st rule: batch_loop.induct)
  case (1 mx st)
  then show ?case by simp
next
  case (2 mx files st)
  then show ?case by simp
next
  case (3 mx chunk_data files st)
  from "3.prems" have c: "is_chunk chunk_data" and rest: "list_all is_chunk (readable files)"
    and ec: "encodable chunk_data" and erest: "list_all encodable (readable files)"
    and ecur: "list_all encodable (current_batch_content st)"
    by simp_all
  obtain n where n: "estimate_char_length chunk_data = Inr n"
    using is_chunk_estimate [OF c] by blast
  show ?case
  proof (cases "current_batch_size_chars st + int n > mx \<and> current_batch_content st \<noteq> []")
    case True
    have sv: "save_batch st = Inr (saved st)" using ecur by (rule save_batch_encodable)
    let ?st = "(saved st)\<lparr>current_batch_content := [chunk_data], current_batch_size_chars := int n\<rparr>"
    have "\<exists>st'. batch_loop mx files ?st = (st', None)
            \<and> chunks_of st' = chunks_of ?st @ readable files
            \<and> list_all encodable (current_batch_content st')"
      using "3.IH"(1) [OF n refl True sv rest erest] ec by simp
    moreover have "chunks_of ?st = chunks_of st @ [chunk_data]"
      by (simp add: chunks_of_def saved_def)
    ultimately show ?thesis using n True sv by (simp add: Let_def)
  next
    case False
    let ?st = "st\<lparr>current_batch_content := current_batch_content st @ [chunk_data],
                   current_batch_size_chars := current_batch_size_chars st + int n\<rparr>"
    have "\<exists>st'. batch_loop mx files ?st = (st', None)
            \<and> chunks_of st' = chunks_of ?st @ readable files
            \<and> list_all encodable (current_batch_content st')"
      using "3.IH"(2) [OF n refl False rest erest] ec ecur by simp
    moreover have "chunks_of ?st = chunks_of st @ [chunk_data]"
      by (simp add: chunks_of_def)
    ultimately show ?thesis using n False by (auto simp: Let_def)
  qed
qed

subsection \<open>The loop numbers the batch files\<close>

lemma numbered_saved:
  assumes "numbered st" and "current_batch_content st \<noteq> []"
  shows "numbered (saved st)"
  using assms by (auto simp: numbered_def saved_def)

lemma batch_loop_numbered:
  assumes "batch_loop mx files st = (st', r)" and "numbered st"
  shows "numbered st'"
  using assms
proof (induction mx files st rule: batch_loop.induct)
  case (1 mx st)
  then show ?case by simp
next
  case (2 mx files st)
  then show ?case by simp
next
  case (3 mx chunk_data files st)
  show ?case
  proof (cases "estimate_char_length chunk_data")
    case (Inl e)
    then show ?thesis using "3.prems" by simp
  next
    case (Inr n)
    show ?thesis
    proof (cases "current_batch_size_chars st + int n > mx \<and> current_batch_content st \<noteq> []")
      case True
      show ?thesis
      proof (cases "save_batch st")
        case failed: (Inl e)
        then show ?thesis using "3.prems" Inr True by (simp add: Let_def)
      next
        case sv: (Inr st1)
        let ?st = "st1\<lparr>current_batch_content := [chunk_data], current_batch_size_chars := int n\<rparr>"
        have run: "batch_loop mx files ?st = (st', r)"
          using "3.prems"(1) Inr True sv by (simp add: Let_def)
        have "numbered st1"
          using numbered_saved "3.prems"(2) True save_batch_returns [OF sv] by blast
        then have "numbered ?st" by (simp add: numbered_def)
        then show ?thesis using "3.IH"(1) [OF Inr refl True sv run] by simp
      qed
    next
      case False
      let ?st = "st\<lparr>current_batch_content := current_batch_content st @ [chunk_data],
                   current_batch_size_chars := current_batch_size_chars st + int n\<rparr>"
      have run: "batch_loop mx files ?st = (st', r)"
        using "3.prems"(1) Inr False by (auto simp: Let_def)
      have "numbered ?st" using "3.prems"(2) by (simp add: numbered_def)
      then show ?thesis using "3.IH"(2) [OF Inr refl False run] by simp
    qed
  qed
qed

lemma numbered_initial: "numbered initial_batch_state"
  by (simp add: numbered_def initial_batch_state_def)

subsection \<open>The loop respects the budget\<close>

lemma accounted_saved:
  assumes "accounted mx st" and "current_batch_content st \<noteq> []"
  shows "accounted mx (saved st)"
  using assms by (auto simp: accounted_def saved_def)

lemma within_budget_single:
  assumes "estimate_char_length c = Inr n"
  shows "within_budget mx [c]"
  using assms by (auto simp: within_budget_def)

lemma batch_loop_accounted:
  assumes "batch_loop mx files st = (st', r)" and "accounted mx st"
  shows "accounted mx st'"
  using assms
proof (induction mx files st rule: batch_loop.induct)
  case (1 mx st)
  then show ?case by simp
next
  case (2 mx files st)
  then show ?case by simp
next
  case (3 mx chunk_data files st)
  show ?case
  proof (cases "estimate_char_length chunk_data")
    case (Inl e)
    then show ?thesis using "3.prems" by simp
  next
    case (Inr n)
    obtain ns where ns: "estimates (current_batch_content st) = Inr ns"
      and size: "current_batch_size_chars st = int (sum_list ns)"
      using "3.prems"(2) by (auto simp: accounted_def)
    show ?thesis
    proof (cases "current_batch_size_chars st + int n > mx \<and> current_batch_content st \<noteq> []")
      case True
      show ?thesis
      proof (cases "save_batch st")
        case failed: (Inl e)
        then show ?thesis using "3.prems" Inr True by (simp add: Let_def)
      next
        case sv: (Inr st1)
        let ?st = "st1\<lparr>current_batch_content := [chunk_data], current_batch_size_chars := int n\<rparr>"
        have run: "batch_loop mx files ?st = (st', r)"
          using "3.prems"(1) Inr True sv by (simp add: Let_def)
        have "accounted mx st1"
          using accounted_saved "3.prems"(2) True save_batch_returns [OF sv] by blast
        then have "accounted mx ?st" using Inr within_budget_single [OF Inr, of mx]
          by (simp add: accounted_def)
        then show ?thesis using "3.IH"(1) [OF Inr refl True sv run] by simp
      qed
    next
      case False
      let ?st = "st\<lparr>current_batch_content := current_batch_content st @ [chunk_data],
                   current_batch_size_chars := current_batch_size_chars st + int n\<rparr>"
      have run: "batch_loop mx files ?st = (st', r)"
        using "3.prems"(1) Inr False by (auto simp: Let_def)
      have e: "estimates (current_batch_content st @ [chunk_data]) = Inr (ns @ [n])"
        using estimates_snoc [OF ns Inr] .
      have w: "within_budget mx (current_batch_content st @ [chunk_data])"
      proof (cases "current_batch_content st = []")
        case True
        then show ?thesis using within_budget_single [OF Inr] by simp
      next
        case nonempty: False
        then have "current_batch_size_chars st + int n \<le> mx" using False by simp
        then show ?thesis using e size by (simp add: within_budget_def)
      qed
      have "accounted mx ?st" using "3.prems"(2) e size w by (simp add: accounted_def)
      then show ?thesis using "3.IH"(2) [OF Inr refl False run] by simp
    qed
  qed
qed

lemma accounted_initial: "accounted mx initial_batch_state"
  by (simp add: accounted_def initial_batch_state_def)

lemma create_batches_within_budget:
  "list_all (within_budget mx) (map snd (fst (create_batches chunks_dir mx)))"
proof (cases chunks_dir)
  case None
  then show ?thesis by (simp add: create_batches_def)
next
  case (Some d)
  obtain st r where run: "batch_loop mx (map snd (json_files d)) initial_batch_state = (st, r)"
    by (cases "batch_loop mx (map snd (json_files d)) initial_batch_state")
  have a: "accounted mx st" using batch_loop_accounted [OF run accounted_initial] .
  show ?thesis
  proof (cases r)
    case None
    show ?thesis
    proof (cases "current_batch_content st = []")
      case True
      then show ?thesis using a Some run None by (simp add: create_batches_def accounted_def)
    next
      case False
      show ?thesis
      proof (cases "save_batch st")
        case (Inl e)
        then show ?thesis using a Some run None False
          by (simp add: create_batches_def accounted_def)
      next
        case (Inr st1)
        then have "accounted mx st1"
          using a False accounted_saved save_batch_returns by blast
        then show ?thesis using Some run None False Inr
          by (simp add: create_batches_def accounted_def)
      qed
    qed
  next
    case (Some e)
    then show ?thesis using a \<open>chunks_dir = Some d\<close> run by (simp add: create_batches_def accounted_def)
  qed
qed

lemma within_budget_oversized:
  assumes "within_budget mx batch" and "c \<in> set batch" and "oversized mx c"
  shows "batch = [c]"
proof -
  obtain ns where ns: "estimates batch = Inr ns"
    and b: "int (sum_list ns) \<le> mx \<or> (length batch = 1 \<and> int (sum_list ns) > mx)"
    using assms(1) by (auto simp: within_budget_def split: sum.splits)
  obtain n where n: "estimate_char_length c = Inr n" and le: "n \<le> sum_list ns"
    using estimates_mem [OF ns assms(2)] by blast
  have "int n > mx" using assms(3) n by (simp add: oversized_def)
  then have "length batch = 1" using b le by linarith
  then show ?thesis using assms(2) by (cases batch) auto
qed

lemma create_batches_partition:
  assumes "list_all is_chunk (readable (map snd (json_files d)))"
    and "list_all encodable (readable (map snd (json_files d)))"
  shows "\<exists>batches. create_batches (Some d) mx = (batches, Inr (length batches))
           \<and> concat (map snd batches) = readable (map snd (json_files d))
           \<and> map fst batches = [1..<Suc (length batches)]
           \<and> [] \<notin> set (map snd batches)"
proof -
  have "list_all encodable (current_batch_content initial_batch_state)"
    by (simp add: initial_batch_state_def)
  then obtain st where run: "batch_loop mx (map snd (json_files d)) initial_batch_state = (st, None)"
    and all: "chunks_of st = chunks_of initial_batch_state @ readable (map snd (json_files d))"
    and enc: "list_all encodable (current_batch_content st)"
    using batch_loop_partition [OF assms] by blast
  have nb: "numbered st" using batch_loop_numbered [OF run numbered_initial] .
  have sv: "save_batch st = Inr (saved st)" using enc by (rule save_batch_encodable)
  define st' where "st' = (if current_batch_content st \<noteq> [] then saved st else st)"
  have nb': "numbered st'" using nb numbered_saved by (simp add: st'_def)
  have empty: "current_batch_content st' = []" by (simp add: st'_def saved_def)
  have "chunks_of st' = chunks_of st" by (simp add: st'_def)
  then have c: "concat (map snd (batch_files st')) = readable (map snd (json_files d))"
    using all empty by (simp add: chunks_of_def initial_batch_state_def)
  have len: "length (batch_files st') = batch_count st' - 1"
    using nb' by (metis numbered_def length_map length_upt)
  have r: "create_batches (Some d) mx = (batch_files st', Inr (batch_count st' - 1))"
    using run sv by (simp add: create_batches_def st'_def)
  have sl: "Suc (length (batch_files st')) = batch_count st'"
    using nb' len by (simp add: numbered_def)
  show ?thesis
  proof (intro exI conjI)
    show "create_batches (Some d) mx = (batch_files st', Inr (length (batch_files st')))"
      using r len by simp
    show "concat (map snd (batch_files st')) = readable (map snd (json_files d))"
      by (rule c)
    show "map fst (batch_files st') = [1..<Suc (length (batch_files st'))]"
      unfolding sl using nb' by (simp add: numbered_def)
    show "[] \<notin> set (map snd (batch_files st'))"
      using nb' by (simp add: numbered_def)
  qed
qed

subsection \<open>The sample directories\<close>

lemma utf8_encodable_ustr: "utf8_encodable (ustr s)"
proof -
  have "\<not> is_surrogate (of_char c)" for c :: char
  proof -
    have "(of_char c :: nat) mod 256 = of_char c" by (rule of_char_mod_256)
    then have "(of_char c :: nat) < 256"
      by (metis mod_less_divisor zero_less_numeral)
    then show ?thesis unfolding is_surrogate_def by linarith
  qed
  then show ?thesis by (simp add: utf8_encodable_def ustr_def list_ex_iff)
qed

lemma sample_encodable: "encodable (sample_chunk s)"
  by (simp add: sample_chunk_def utf8_encodable_ustr)

lemma sample_json_files:
  "map snd (json_files sample_chunks_dir) =
     [Some (sample_chunk ''abc''), Some (sample_chunk ''de''), Some (sample_chunk ''abcdefgh''),
      None, Some (sample_chunk ''x'')]"
  by (simp add: json_files_def sample_chunks_dir_def endswith_def ustr_def)

lemma sample_estimates:
  "estimate_char_length (sample_chunk ''abc'') = Inr 3"
  "estimate_char_length (sample_chunk ''de'') = Inr 2"
  "estimate_char_length (sample_chunk ''abcdefgh'') = Inr 8"
  "estimate_char_length (sample_chunk ''x'') = Inr 1"
  by (simp_all add: estimate_char_length_def sample_chunk_def ustr_def)

lemma sample_batches:
  "create_batches (Some sample_chunks_dir) 5 =
     ([(1, [sample_chunk ''abc'', sample_chunk ''de'']), (2, [sample_chunk ''abcdefgh'']),
       (3, [sample_chunk ''x''])], Inr 3)"
  by (simp add: create_batches_def sample_json_files sample_estimates initial_batch_state_def
        save_batch_def saved_def sample_encodable Let_def)

lemma sample_is_chunk: "is_chunk (sample_chunk s)"
  by (simp add: sample_chunk_def ustr_def)

lemma sample_readable_chunks:
  "list_all is_chunk (readable (map snd (json_files sample_chunks_dir)))"
  by (simp add: sample_json_files sample_is_chunk)

lemma sample_encodable_chunks:
  "list_all encodable (readable (map snd (json_files sample_chunks_dir)))"
  by (simp add: sample_json_files sample_encodable)

text \<open>
  A ".json" file that can be read and holds no dict is not a chunk file: the estimate
  raises on it, outside the \<^verbatim>\<open>try\<close>, and the run ends with that exception.
\<close>

lemma non_dict_chunk_file_raises:
  "create_batches (Some [(ustr ''chunk_0001.json'', Some (JArr []))]) mx
     = ([], Inl AttributeError)"
  by (simp add: create_batches_def json_files_def endswith_def ustr_def
        estimate_char_length_def initial_batch_state_def)

text \<open>
  The directory with the one chunk whose text ends in a lone surrogate: the chunk file is
  read, the chunk is a chunk of four characters, and it cannot be encoded.
\<close>

lemma surrogate_json_files: "map snd (json_files surrogate_dir) = [Some surrogate_chunk]"
  by (simp add: json_files_def surrogate_dir_def endswith_def ustr_def)

lemma surrogate_is_chunk: "is_chunk surrogate_chunk"
  by (simp add: surrogate_chunk_def ustr_def)

lemma surrogate_estimate: "estimate_char_length surrogate_chunk = Inr 4"
  by (simp add: estimate_char_length_def surrogate_chunk_def ustr_def)

lemma surrogate_not_encodable: "\<not> encodable surrogate_chunk"
  by (simp add: surrogate_chunk_def utf8_encodable_def is_surrogate_def)

lemma surrogate_batches:
  "create_batches (Some surrogate_dir) mx = ([], Inl UnicodeEncodeError)"
  by (simp add: create_batches_def surrogate_json_files surrogate_estimate
        initial_batch_state_def save_batch_def surrogate_not_encodable Let_def)

subsection \<open>The claims\<close>

text \<open>
  C2 as stated fails. The chunk file of the directory \<open>surrogate_dir\<close> is read and holds
  a chunk, yet \<open>create_batches\<close> (with the default budget) raises
  \<^verbatim>\<open>UnicodeEncodeError\<close> when it dumps the batch, and the chunk is in no batch file
  written: it is dropped.
\<close>

theorem create_batches_drops_unencodable_chunk:
  "readable (map snd (json_files surrogate_dir)) = [surrogate_chunk]
   \<and> is_chunk surrogate_chunk
   \<and> create_batches (Some surrogate_dir) MAX_BATCH_CHARS = ([], Inl UnicodeEncodeError)
   \<and> surrogate_chunk
       \<notin> set (concat (map snd (fst (create_batches (Some surrogate_dir) MAX_BATCH_CHARS))))"
  by (simp add: surrogate_json_files surrogate_is_chunk surrogate_batches)

text \<open>
  C2, amended. When every chunk file that can be read holds a chunk that can be encoded
  as UTF-8 (no string in it holds a surrogate code point), \<open>create_batches\<close> returns
  normally, its return value is the number of batch files it wrote, the files are
  numbered 1, 2, ... (so no two writes go to one file), none is empty, and the batches
  laid end to end are exactly the readable chunks in the order read: each readable chunk
  is in one batch, once, and the files that cannot be read contribute nothing.
\<close>

theorem create_batches_partitions_chunks:
  assumes "list_all is_chunk (readable (map snd (json_files d)))"
    and "list_all encodable (readable (map snd (json_files d)))"
  shows "\<exists>batches. create_batches (Some d) mx = (batches, Inr (length batches))
           \<and> concat (map snd batches) = readable (map snd (json_files d))
           \<and> map fst batches = [1..<Suc (length batches)]
           \<and> [] \<notin> set (map snd batches)"
  using assms by (rule create_batches_partition)

theorem create_batches_partitions_chunks_witness:
  "list_all is_chunk (readable (map snd (json_files sample_chunks_dir)))
   \<and> list_all encodable (readable (map snd (json_files sample_chunks_dir)))
   \<and> (\<exists>batches. create_batches (Some sample_chunks_dir) 5 = (batches, Inr (length batches))
           \<and> concat (map snd batches) = readable (map snd (json_files sample_chunks_dir))
           \<and> map fst batches = [1..<Suc (length batches)]
           \<and> [] \<notin> set (map snd batches))
   \<and> readable (map snd (json_files sample_chunks_dir)) =
       [sample_chunk ''abc'', sample_chunk ''de'', sample_chunk ''abcdefgh'', sample_chunk ''x'']"
proof -
  have r: "readable (map snd (json_files sample_chunks_dir)) =
       [sample_chunk ''abc'', sample_chunk ''de'', sample_chunk ''abcdefgh'', sample_chunk ''x'']"
    by (simp add: sample_json_files)
  show ?thesis
    using sample_readable_chunks sample_encodable_chunks r
      create_batches_partitions_chunks [OF sample_readable_chunks sample_encodable_chunks, of 5]
    by blast
qed

text \<open>
  C3. Every batch file \<open>create_batches\<close> writes, for any directory and any budget
  (32000 by default) and also when an exception ends the run early, respects the budget:
  each of its chunks has an estimated length, and these sum to at most the budget unless
  the batch is a single chunk that is over the budget by itself.
\<close>

theorem batches_respect_budget:
  "list_all (within_budget mx) (map snd (fst (create_batches chunks_dir mx)))
   \<and> list_all (within_budget MAX_BATCH_CHARS)
        (map snd (fst (create_batches chunks_dir MAX_BATCH_CHARS)))
   \<and> MAX_BATCH_CHARS = 32000"
  using create_batches_within_budget by (simp add: MAX_BATCH_CHARS_def)

theorem batches_respect_budget_witness:
  "fst (create_batches (Some sample_chunks_dir) 5) =
     [(1, [sample_chunk ''abc'', sample_chunk ''de'']), (2, [sample_chunk ''abcdefgh'']),
      (3, [sample_chunk ''x''])]
   \<and> list_all (within_budget 5) (map snd (fst (create_batches (Some sample_chunks_dir) 5)))
   \<and> estimates [sample_chunk ''abc'', sample_chunk ''de''] = Inr [3, 2]
   \<and> estimates [sample_chunk ''abcdefgh''] = Inr [8]"
  using batches_respect_budget [of 5 "Some sample_chunks_dir"]
  by (simp add: sample_batches sample_estimates)



text \<open>
  When moreover every readable chunk file holds a chunk that can be encoded, each
  over-budget chunk is written as such a batch of one.
\<close>

lemma oversized_chunk_is_written:
  assumes ok: "list_all is_chunk (readable (map snd (json_files d)))"
    and enc: "list_all encodable (readable (map snd (json_files d)))"
    and c: "c \<in> set (readable (map snd (json_files d)))"
    and big: "oversized mx c"
  shows "[c] \<in> set (map snd (fst (create_batches (Some d) mx)))"
proof -
  obtain batches where b: "create_batches (Some d) mx = (batches, Inr (length batches))"
    and all: "concat (map snd batches) = readable (map snd (json_files d))"
    using create_batches_partition [OF ok enc] by blast
  have "c \<in> set (concat (map snd batches))" using c all by simp
  then obtain batch where m: "batch \<in> set (map snd batches)" and cb: "c \<in> set batch"
    by auto
  have "within_budget mx batch"
    using create_batches_within_budget [of mx "Some d"] m b by (auto simp: list_all_iff)
  then have "batch = [c]" using cb big by (rule within_budget_oversized)
  then show ?thesis using m b by simp
qed

section \<open>Properties of the chunker\<close>

subsection \<open>Finding and splitting\<close>

lemma str_in_find: "str_in w t \<longleftrightarrow> str_find t w \<noteq> None"
  by (induction t) auto

lemma split_nonempty: "split t sep \<noteq> []"
  by (subst split.simps) (simp split: option.splits)

lemma split_first:
  assumes "sep \<noteq> []"
  shows "index (split t sep) 0 = Inr (case str_find t sep of None \<Rightarrow> t | Some i \<Rightarrow> take i t)"
  using assms by (subst split.simps) (simp add: index_def split: option.splits)

lemma str_find_single:
  "str_find t [c] =
     (if c \<in> set t then Some (length (takeWhile (\<lambda>x. x \<noteq> c) t)) else None)"
  by (induction t) auto

lemma take_until:
  "(case str_find t [c] of None \<Rightarrow> t | Some i \<Rightarrow> take i t) = takeWhile (\<lambda>x. x \<noteq> c) t"
proof (cases "c \<in> set t")
  case True
  then show ?thesis by (simp add: str_find_single takeWhile_eq_take [symmetric])
next
  case False
  then have tw: "takeWhile (\<lambda>x. x \<noteq> c) t = t" by (auto simp: takeWhile_eq_all_conv)
  have "str_find t [c] = None" using False by (simp add: str_find_single)
  then show ?thesis by (simp add: tw)
qed

subsection \<open>The subreddit of a url\<close>

text \<open>
  What the code computes for a string url: "N/A" when "/r/" does not occur, else the text
  between the first "/r/" found and the next "/" (or the end of the url). That text may
  be empty.
\<close>

lemma parse_subreddit_absent:
  assumes "\<not> str_in (ustr ''/r/'') u"
  shows "parse_subreddit (JStr u) = Inr NA"
  using assms by (simp add: parse_subreddit_def)

lemma parse_subreddit_present:
  assumes "str_find u (ustr ''/r/'') = Some i"
  shows "parse_subreddit (JStr u) = Inr (takeWhile (\<lambda>x. x \<noteq> 47) (drop (i + 3) u))"
proof -
  have "str_in (ustr ''/r/'') u" using assms by (simp add: str_in_find)
  moreover have "index (split_once u (ustr ''/r/'')) 1 = Inr (drop (i + 3) u)"
    using assms by (simp add: split_once_def index_def ustr_def numeral_3_eq_3)
  moreover have "index (split (drop (i + 3) u) (ustr ''/'')) 0
      = Inr (takeWhile (\<lambda>x. x \<noteq> 47) (drop (i + 3) u))"
    using split_first [of "[47]" "drop (i + 3) u"] take_until [of "drop (i + 3) u" 47]
    by (simp add: ustr_def)
  ultimately show ?thesis by (simp add: parse_subreddit_def)
qed

text \<open>
  C6 at the url "https://www.reddit.com/r/": the subreddit is the empty string, not
  "N/A". The handler for \<^verbatim>\<open>IndexError\<close> that would give "N/A" is never reached,
  because both splits return a list that is long enough.
\<close>

theorem subreddit_of_url_ending_in_r:
  "parse_subreddit url_ending_in_r = Inr []
   \<and> parse_subreddit url_ending_in_r \<noteq> Inr NA
   \<and> (\<exists>d. make_document repr (JObj [(ustr ''url'', url_ending_in_r)]) = Inr d
          \<and> map_of (metadata d) (ustr ''subreddit'') = Some (JStr []))"
proof -
  have p: "parse_subreddit url_ending_in_r = Inr []"
    by (simp add: url_ending_in_r_def parse_subreddit_def ustr_def split_once_def index_def
          split.simps)
  have n: "NA \<noteq> []" by (simp add: NA_def ustr_def)
  have l: "lookup [(ustr ''url'', url_ending_in_r)] (ustr ''url'') (JStr []) = url_ending_in_r"
    by (simp add: lookup_def)
  have "\<exists>d. make_document repr (JObj [(ustr ''url'', url_ending_in_r)]) = Inr d
          \<and> map_of (metadata d) (ustr ''subreddit'') = Some (JStr [])"
    by (simp add: make_document_def Let_def l p) (simp add: ustr_def)
  then show ?thesis using p n by simp
qed

subsection \<open>A chunk that cannot be encoded\<close>

text \<open>
  The chunker's own dump of a chunk file raises on a chunk whose text holds a surrogate,
  so no chunk file the chunker wrote holds one.
\<close>

lemma write_chunks_raises:
  "write_chunks [\<lparr>page_content = [0x61, 0xD83D], metadata = []\<rparr>] = Inl UnicodeEncodeError"
  by (simp add: write_chunks_def dump_document_def utf8_encodable_def is_surrogate_def)

subsection \<open>A malformed input file\<close>

text \<open>
  C5 at an input file that exists and is not valid JSON: \<^verbatim>\<open>json.load\<close> raises in
  the chunker, outside any \<^verbatim>\<open>try\<close>, and the exception leaves the pipeline. So does the
  \<^verbatim>\<open>AttributeError\<close> of a file that is valid JSON and holds a list with a number for
  a post.
\<close>

theorem malformed_input_raises:
  "fst (process_and_chunk_reddit_data repr split_documents (Some (Inl JSONDecodeError)))
     = Inl JSONDecodeError
   \<and> returned (run_full_analysis_pipeline repr split_documents call_local_analysis
        (Some (Inl JSONDecodeError))) = Inl JSONDecodeError
   \<and> returned (run_full_analysis_pipeline repr split_documents call_local_analysis
        (Some (Inr (JArr [JNum 1])))) = Inl AttributeError"
  by (simp add: run_full_analysis_pipeline_def process_and_chunk_reddit_data_def
        make_document_def)


section \<open>Properties of the analysis and of the pipeline\<close>

subsection \<open>The prompt text of a batch of chunks\<close>

lemma is_chunk_page_content:
  assumes "is_chunk c"
  shows "\<exists>s. dict_get c (ustr ''page_content'') (JStr []) = Inr (JStr s)"
proof (cases c)
  case (JObj kvs)
  then show ?thesis using assms by (auto split: option.splits json.splits)
qed (use assms in simp_all)

lemma get_all_chunks:
  assumes "list_all is_chunk items"
  shows "\<exists>ss. get_all items = Inr (map JStr ss)"
  using assms
proof (induction items)
  case Nil
  show ?case by simp
next
  case (Cons item items)
  obtain s where s: "dict_get item (ustr ''page_content'') (JStr []) = Inr (JStr s)"
    using Cons.prems is_chunk_page_content by auto
  obtain ss where ss: "get_all items = Inr (map JStr ss)"
    using Cons by auto
  have "get_all (item # items) = Inr (map JStr (s # ss))" using s ss by simp
  then show ?case by blast
qed

lemma strings_map_JStr: "strings (map JStr ss) = Inr ss"
  by (induction ss) auto

lemma batch_text_batch:
  assumes "is_batch b"
  shows "\<exists>content. batch_text b = Inr content"
proof (cases b)
  case (JArr chunks)
  then have "list_all is_chunk chunks" using assms by simp
  then obtain ss where "get_all chunks = Inr (map JStr ss)" using get_all_chunks by blast
  then show ?thesis using JArr by (simp add: batch_text_def strings_map_JStr)
qed (use assms in simp_all)

subsection \<open>The analysis loop when every call fails\<close>

lemma analysis_loop_all_fail:
  assumes "readable_batches files"
  shows "analysis_loop (\<lambda>content. None) files acc = Inr acc"
  using assms
proof (induction files)
  case Nil
  show ?case by simp
next
  case (Cons entry files)
  obtain filename r where entry: "entry = (filename, r)" by (cases entry)
  have rest: "analysis_loop (\<lambda>content. None) files acc = Inr acc"
    using Cons by (simp add: readable_batches_def)
  show ?case
  proof (cases r)
    case None
    then show ?thesis using entry rest by simp
  next
    case (Some b)
    then have "is_batch b" using Cons.prems entry by (simp add: readable_batches_def)
    then obtain content where c: "batch_text b = Inr content" using batch_text_batch by blast
    obtain x xs where "split filename (ustr ''.'') = x # xs"
      using split_nonempty [of filename "ustr ''.''"] by (cases "split filename (ustr ''.'')") auto
    then have i: "index (split filename (ustr ''.'')) 0 = Inr x" by (simp add: index_def)
    show ?thesis using entry Some c i rest by simp
  qed
qed

lemma analyze_batches_all_fail:
  assumes "\<And>content. call content = None" and "readable_batches (json_files d)"
  shows "analyze_batches call (Some d) = (Inr [], None)"
proof -
  have "call = (\<lambda>content. None)" using assms(1) by (simp add: fun_eq_iff)
  then show ?thesis
    using analysis_loop_all_fail [OF assms(2), where acc = "[]"] by (simp add: analyze_batches_def)
qed

subsection \<open>The files one stage hands to the next\<close>

lemma set_readable: "set (readable files) = {c. Some c \<in> set files}"
  by (induction files rule: readable.induct) auto

lemma set_json_files: "set (json_files d) \<subseteq> set d"
  by (auto simp: json_files_def)

lemma is_chunk_dump_document: "is_chunk (dump_document c)"
  by (simp add: dump_document_def ustr_def)

lemma written_chunks_are_chunks:
  "list_all is_chunk (readable (map snd (json_files (as_directory (chunk_file_list cs)))))"
proof -
  have "c \<in> set (readable (map snd (json_files (as_directory (chunk_file_list cs))))) \<Longrightarrow> is_chunk c" for c
  proof -
    assume "c \<in> set (readable (map snd (json_files (as_directory (chunk_file_list cs)))))"
    then have "Some c \<in> snd ` set (json_files (as_directory (chunk_file_list cs)))"
      by (simp add: set_readable)
    then have "Some c \<in> snd ` set (as_directory (chunk_file_list cs))"
      using set_json_files by blast
    then obtain d where "c = dump_document d"
      by (auto simp: as_directory_def chunk_file_list_def)
    then show "is_chunk c" by (simp add: is_chunk_dump_document)
  qed
  then show ?thesis by (simp add: list_all_iff)
qed

lemma batches_directory_readable:
  assumes "list_all is_chunk (concat (map snd batches))"
  shows "readable_batches (json_files (batches_directory batches))"
proof -
  have "(case snd entry of None \<Rightarrow> True | Some b \<Rightarrow> is_batch b)"
    if "entry \<in> set (json_files (batches_directory batches))" for entry
  proof -
    from that have "entry \<in> set (batches_directory batches)" using set_json_files by blast
    then obtain n chunks where nb: "(n, chunks) \<in> set batches"
      and e: "entry = (batch_filename n, Some (JArr chunks))"
      by (auto simp: batches_directory_def as_directory_def)
    have "chunks \<in> set (map snd batches)" using nb by force
    then have "set chunks \<subseteq> set (concat (map snd batches))" by auto
    then have "list_all is_chunk chunks" using assms unfolding list_all_iff by blast
    then show ?thesis using e by simp
  qed
  then show ?thesis by (simp add: readable_batches_def list_all_iff)
qed

lemma startswith_append: "startswith (s @ t) s"
  by (induction s) auto

lemma endswith_suffix: "endswith (a @ s) s"
  by (simp add: endswith_def startswith_append)

lemma chunk_filename_json: "endswith (chunk_filename i) (ustr ''.json'')"
  using endswith_suffix [of "ustr ''chunk_'' @ zfill 4 (decimal i)" "ustr ''.json''"]
  by (simp add: chunk_filename_def)

lemma set_json_files_written:
  "set (json_files (as_directory (chunk_file_list cs))) = set (as_directory (chunk_file_list cs))"
proof -
  have "endswith (fst entry) (ustr ''.json'')"
    if "entry \<in> set (as_directory (chunk_file_list cs))" for entry
    using that by (auto simp: as_directory_def chunk_file_list_def chunk_filename_json)
  then have "filter (\<lambda>entry. endswith (fst entry) (ustr ''.json'')) (as_directory (chunk_file_list cs))
      = as_directory (chunk_file_list cs)"
    by (simp add: filter_id_conv)
  then show ?thesis by (simp add: json_files_def)
qed

lemma written_readable_nonempty:
  assumes "cs \<noteq> []"
  shows "readable (map snd (json_files (as_directory (chunk_file_list cs)))) \<noteq> []"
proof -
  have "length (as_directory (chunk_file_list cs)) = length cs"
    by (simp add: as_directory_def chunk_file_list_def)
  then obtain entry where e: "entry \<in> set (as_directory (chunk_file_list cs))"
    using assms by (cases "as_directory (chunk_file_list cs)") auto
  then obtain f v where fv: "entry = (f, Some v)"
    by (auto simp: as_directory_def)
  have "entry \<in> set (json_files (as_directory (chunk_file_list cs)))"
    using e by (simp add: set_json_files_written)
  then have "Some v \<in> set (map snd (json_files (as_directory (chunk_file_list cs))))"
    using fv by force
  then have "v \<in> set (readable (map snd (json_files (as_directory (chunk_file_list cs)))))"
    by (simp add: set_readable)
  then show ?thesis by auto
qed

lemma written_chunks_are_encodable:
  assumes "list_all (\<lambda>chunk. encodable (dump_document chunk)) cs"
  shows "list_all encodable (readable (map snd (json_files (as_directory (chunk_file_list cs)))))"
proof -
  have "encodable c"
    if "c \<in> set (readable (map snd (json_files (as_directory (chunk_file_list cs)))))" for c
  proof -
    from that have "Some c \<in> snd ` set (json_files (as_directory (chunk_file_list cs)))"
      by (simp add: set_readable)
    then have "Some c \<in> snd ` set (as_directory (chunk_file_list cs))"
      using set_json_files by blast
    then obtain d where "d \<in> set cs" and "c = dump_document d"
      by (auto simp: as_directory_def chunk_file_list_def enumerate_eq_zip dest: set_zip_rightD)
    then show "encodable c" using assms by (simp add: list_all_iff)
  qed
  then show ?thesis by (simp add: list_all_iff)
qed

lemma chunker_count:
  assumes "process_and_chunk_reddit_data repr split_documents input_file = (Inr (n, files), out)"
  shows "\<exists>cs. n = length cs \<and> files = chunk_file_list cs
           \<and> list_all (\<lambda>chunk. encodable (dump_document chunk)) cs"
proof (cases input_file)
  case None
  then have "n = length ([] :: document list) \<and> files = chunk_file_list []
      \<and> list_all (\<lambda>chunk. encodable (dump_document chunk)) []"
    using assms by (simp add: process_and_chunk_reddit_data_def chunk_file_list_def)
  then show ?thesis by blast
next
  case (Some loaded)
  show ?thesis
  proof (cases loaded)
    case (Inl e)
    then show ?thesis using assms Some by (simp add: process_and_chunk_reddit_data_def)
  next
    case (Inr all_posts_data)
    show ?thesis
    proof (cases "iterate all_posts_data")
      case (Inl e)
      then show ?thesis using assms Some \<open>loaded = Inr all_posts_data\<close>
        by (simp add: process_and_chunk_reddit_data_def)
    next
      case posts: (Inr posts)
      show ?thesis
      proof (cases "make_documents repr posts")
        case (Inl e)
        then show ?thesis using assms Some \<open>loaded = Inr all_posts_data\<close> posts
          by (simp add: process_and_chunk_reddit_data_def)
      next
        case docs: (Inr documents)
        show ?thesis
        proof (cases "split_documents documents")
          case (Inl e)
          then show ?thesis using assms Some \<open>loaded = Inr all_posts_data\<close> posts docs
            by (simp add: process_and_chunk_reddit_data_def)
        next
          case (Inr chunked_documents)
          then have "n = length chunked_documents \<and> files = chunk_file_list chunked_documents
              \<and> list_all (\<lambda>chunk. encodable (dump_document chunk)) chunked_documents"
            using assms Some \<open>loaded = Inr all_posts_data\<close> posts docs
            by (simp add: process_and_chunk_reddit_data_def write_chunks_def split: if_splits)
          then show ?thesis by blast
        qed
      qed
    qed
  qed
qed

subsection \<open>The pipeline when every call fails\<close>

lemma pipeline_all_fail:
  assumes fail: "\<And>content. call content = None"
    and chunked: "process_and_chunk_reddit_data repr split_documents input_file = (Inr (n, files), out)"
  shows "returned (run_full_analysis_pipeline repr split_documents call input_file) = Inr []
       \<and> report_file (run_full_analysis_pipeline repr split_documents call input_file) = None
       \<and> (n \<noteq> 0 \<longrightarrow> (\<exists>k. 0 < k \<and>
             printed (run_full_analysis_pipeline repr split_documents call input_file) =
               Starting_chunking # out @
               [Chunking_complete n, Starting_batching, Batching_complete k, Starting_analysis,
                Pipeline_finished 0]))"
proof (cases "n = 0")
  case True
  then show ?thesis using chunked by (simp add: run_full_analysis_pipeline_def)
next
  case False
  obtain cs where n: "n = length cs" and cs: "files = chunk_file_list cs"
    and written: "list_all (\<lambda>chunk. encodable (dump_document chunk)) cs"
    using chunker_count [OF chunked] by blast
  have nonempty: "cs \<noteq> []" using False n by auto
  let ?d = "as_directory files"
  have ok: "list_all is_chunk (readable (map snd (json_files ?d)))"
    unfolding cs by (rule written_chunks_are_chunks)
  have enc: "list_all encodable (readable (map snd (json_files ?d)))"
    unfolding cs using written by (rule written_chunks_are_encodable)
  obtain batches where b: "create_batches (Some ?d) MAX_BATCH_CHARS = (batches, Inr (length batches))"
    and c: "concat (map snd batches) = readable (map snd (json_files ?d))"
    using create_batches_partition [OF ok enc, of MAX_BATCH_CHARS] by blast
  have "concat (map snd batches) \<noteq> []"
    unfolding c cs using nonempty by (rule written_readable_nonempty)
  then have k: "0 < length batches" by auto
  have "list_all is_chunk (concat (map snd batches))"
    unfolding c by (rule ok)
  then have "readable_batches (json_files (batches_directory batches))"
    by (rule batches_directory_readable)
  then have a: "analyze_batches call (Some (batches_directory batches)) = (Inr [], None)"
    using analyze_batches_all_fail fail by blast
  have r: "run_full_analysis_pipeline repr split_documents call input_file =
      \<lparr>returned = Inr [], report_file = None,
       printed = ((Starting_chunking # out @ [Chunking_complete n, Starting_batching])
                  @ [Batching_complete (length batches), Starting_analysis])
                  @ [Pipeline_finished (length ([] :: json list))]\<rparr>"
    using False k by (simp add: run_full_analysis_pipeline_def chunked b a Let_def)
  show ?thesis using k by (simp add: r) 
qed

text \<open>
  C7. When the model call fails for every batch (it returns \<open>None\<close> whatever the
  prompt), \<open>analyze_batches\<close> returns the empty list and does not write the combined
  report, for a missing batches directory and for any directory whose readable batch
  files hold lists of chunks; and a pipeline run whose chunking stage returns normally
  returns the empty list, writes no report, and, when there were chunks, ends by printing
  "Total claims: 0".
\<close>

theorem failed_analysis_gives_no_claims:
  assumes "\<forall>content. call_local_analysis content = None"
  shows "analyze_batches call_local_analysis None = (Inr [], None)
     \<and> (readable_batches (json_files d) \<longrightarrow>
          analyze_batches call_local_analysis (Some d) = (Inr [], None))
     \<and> (process_and_chunk_reddit_data repr split_documents input_file = (Inr (n, files), out) \<longrightarrow>
          returned (run_full_analysis_pipeline repr split_documents call_local_analysis input_file)
            = Inr []
        \<and> report_file (run_full_analysis_pipeline repr split_documents call_local_analysis input_file)
            = None
        \<and> (n \<noteq> 0 \<longrightarrow> (\<exists>k. 0 < k \<and>
             printed (run_full_analysis_pipeline repr split_documents call_local_analysis input_file) =
               Starting_chunking # out @
               [Chunking_complete n, Starting_batching, Batching_complete k, Starting_analysis,
                Pipeline_finished 0])))"
proof -
  have fail: "call_local_analysis content = None" for content using assms by simp
  have missing: "analyze_batches call_local_analysis None = (Inr [], None)"
    by (simp add: analyze_batches_def)
  have standalone: "analyze_batches call_local_analysis (Some d) = (Inr [], None)"
    if "readable_batches (json_files d)"
    using fail that by (rule analyze_batches_all_fail)
  show ?thesis using missing standalone pipeline_all_fail [of call_local_analysis, OF fail]
    by blast
qed

lemma sample_subreddit:
  "parse_subreddit (JStr (ustr ''https://www.reddit.com/r/india/comments/1'')) = Inr (ustr ''india'')"
  by (simp add: parse_subreddit_def ustr_def split_once_def index_def split.simps)

lemma utf8_encodable_append:
  "utf8_encodable (a @ b) = (utf8_encodable a \<and> utf8_encodable b)"
  by (auto simp: utf8_encodable_def)

lemma utf8_encodable_Cons:
  "utf8_encodable (c # s) = (\<not> is_surrogate c \<and> utf8_encodable s)"
  by (simp add: utf8_encodable_def)

lemma sample_lookups:
  "lookup [(ustr ''title'', JStr (ustr ''News'')),
          (ustr ''url'', JStr (ustr ''https://www.reddit.com/r/india/comments/1'')),
          (ustr ''selftext'', JStr (ustr ''Body'')),
          (ustr ''score'', JNum 5)] (ustr ''title'') dflt = JStr (ustr ''News'')"
  "lookup [(ustr ''title'', JStr (ustr ''News'')),
          (ustr ''url'', JStr (ustr ''https://www.reddit.com/r/india/comments/1'')),
          (ustr ''selftext'', JStr (ustr ''Body'')),
          (ustr ''score'', JNum 5)] (ustr ''url'') dflt
     = JStr (ustr ''https://www.reddit.com/r/india/comments/1'')"
  "lookup [(ustr ''title'', JStr (ustr ''News'')),
          (ustr ''url'', JStr (ustr ''https://www.reddit.com/r/india/comments/1'')),
          (ustr ''selftext'', JStr (ustr ''Body'')),
          (ustr ''score'', JNum 5)] (ustr ''selftext'') dflt = JStr (ustr ''Body'')"
  "lookup [(ustr ''title'', JStr (ustr ''News'')),
          (ustr ''url'', JStr (ustr ''https://www.reddit.com/r/india/comments/1'')),
          (ustr ''selftext'', JStr (ustr ''Body'')),
          (ustr ''score'', JNum 5)] (ustr ''score'') dflt = JNum 5"
  by (simp_all add: lookup_def ustr_def)

lemma sample_document:
  "\<exists>d. make_document (\<lambda>v. []) sample_post = Inr d \<and> encodable (dump_document d)"
  by (simp add: make_document_def sample_post_def Let_def sample_lookups sample_subreddit
        format_value_def dump_document_def utf8_encodable_append utf8_encodable_ustr
        utf8_encodable_Cons is_surrogate_def)

lemma sample_chunked:
  "\<exists>files. process_and_chunk_reddit_data (\<lambda>v. []) Inr sample_input = (Inr (1, files), [])"
proof -
  obtain d where "make_document (\<lambda>v. []) sample_post = Inr d" and "encodable (dump_document d)"
    using sample_document by blast
  then show ?thesis
    by (simp add: process_and_chunk_reddit_data_def sample_input_def write_chunks_def)
qed

lemma sample_batches_readable: "readable_batches (json_files sample_batches_dir)"
proof -
  have "json_files sample_batches_dir =
     [(ustr ''batch_01.json'', Some (JArr [sample_chunk ''abc'', sample_chunk ''de''])),
      (ustr ''batch_02.json'', None)]"
    by (simp add: json_files_def sample_batches_dir_def endswith_def ustr_def)
  then show ?thesis by (simp add: readable_batches_def sample_is_chunk)
qed

theorem failed_analysis_gives_no_claims_witness:
  "readable_batches (json_files sample_batches_dir)
   \<and> analyze_batches (\<lambda>content. None) (Some sample_batches_dir) = (Inr [], None)
   \<and> returned (run_full_analysis_pipeline (\<lambda>v. []) Inr (\<lambda>content. None) sample_input) = Inr []
   \<and> report_file (run_full_analysis_pipeline (\<lambda>v. []) Inr (\<lambda>content. None) sample_input) = None
   \<and> (\<exists>k. 0 < k \<and>
        printed (run_full_analysis_pipeline (\<lambda>v. []) Inr (\<lambda>content. None) sample_input) =
          [Starting_chunking, Chunking_complete 1, Starting_batching, Batching_complete k,
           Starting_analysis, Pipeline_finished 0])"
proof -
  obtain files where
    c: "process_and_chunk_reddit_data (\<lambda>v. []) Inr sample_input = (Inr (1, files), [])"
    using sample_chunked by blast
  have f: "\<forall>content. (\<lambda>content. None :: json option) content = None" by simp
  show ?thesis
    using failed_analysis_gives_no_claims [OF f, where d = sample_batches_dir
        and repr = "\<lambda>v. []" and split_documents = Inr and input_file = sample_input
        and n = 1 and files = files and out = "[]"]
      c sample_batches_readable
    by simp
qed

end
